theory Spec2Isabelle
  imports Main
begin

section \<open>Result-set cursor of Nanodbc.cpp: data model\<close>

text \<open>
  The development embeds \<^verbatim>\<open>Result::ResultImpl\<close>, \<^verbatim>\<open>bound_column\<close>,
  \<^verbatim>\<open>recent_error\<close> and \<^verbatim>\<open>DatabaseError\<close> of \<^verbatim>\<open>src/src/Nanodbc.cpp\<close>.
  Build configuration: \<^verbatim>\<open>NANODBC_USE_UNICODE\<close> undefined (\<^verbatim>\<open>StringType\<close> is
  \<^verbatim>\<open>std::string\<close>, \<^verbatim>\<open>convert\<close> is the identity), \<^verbatim>\<open>NANODBC_DO_ASYNC_IMPL\<close>
  undefined (the event handle of \<^verbatim>\<open>next\<close> and \<^verbatim>\<open>fetch\<close> is unused), LP64
  (\<^verbatim>\<open>long\<close>, \<^verbatim>\<open>NullType\<close>, \<^verbatim>\<open>SQLLEN\<close> are 64-bit signed, \<^verbatim>\<open>SQLULEN\<close> is
  64-bit unsigned). The \<^verbatim>\<open>_MSC_VER\<close> switch of \<^verbatim>\<open>recent_error\<close> is a parameter.

  Values of type \<^verbatim>\<open>long\<close> and \<^verbatim>\<open>short\<close> are \<^typ>\<open>int\<close> (signed overflow is undefined
  in C++ and is not reached by the arguments considered); values of type \<^verbatim>\<open>SQLULEN\<close> are
  \<^typ>\<open>nat\<close> below \<open>2 ^ 64\<close>, with the wrap-around of the unsigned subtraction in \<^verbatim>\<open>atEnd\<close>
  and of the conversions between \<^verbatim>\<open>SQLULEN\<close> and \<^verbatim>\<open>long\<close> written out.
  Bytes are \<^typ>\<open>char\<close>; a null pointer is \<^const>\<open>None\<close>. A member \<^verbatim>\<open>x_\<close> of the source
  is the field \<open>x\<close> (\<^verbatim>\<open>column_\<close> is \<open>column_ord\<close>).
\<close>

datatype retcode =
  SQL_SUCCESS | SQL_SUCCESS_WITH_INFO | SQL_NO_DATA | SQL_ERROR
  | SQL_INVALID_HANDLE | SQL_NEED_DATA | SQL_STILL_EXECUTING

definition success :: "retcode \<Rightarrow> bool" where
  "success rc \<longleftrightarrow> rc = SQL_SUCCESS \<or> rc = SQL_SUCCESS_WITH_INFO"

datatype orientation =
  SQL_FETCH_NEXT | SQL_FETCH_FIRST | SQL_FETCH_LAST | SQL_FETCH_PRIOR
  | SQL_FETCH_ABSOLUTE | SQL_FETCH_RELATIVE

text \<open>
  The exceptions of the library. \<open>DatabaseError\<close> stands for the throw of
  \<^verbatim>\<open>NANODBC_THROW_DATABASE_ERROR\<close>; the content of that exception is computed by
  \<open>DatabaseError_ctor\<close> below. \<open>BadArrayNewLength\<close> is the failure of \<^verbatim>\<open>new T[n]\<close> for
  negative \<open>n\<close>. \<open>UndefinedBehaviour\<close> marks an access through a null pointer or outside an
  array, which C++ leaves undefined.
\<close>

datatype error =
  IndexRangeError | NullAccessError | TypeIncompatipleError | DatabaseError
  | BadArrayNewLength | UndefinedBehaviour

text \<open>SQL type codes named in the \<^verbatim>\<open>switch\<close> of \<^verbatim>\<open>auto_bind\<close>; every other code is \<open>SQL_OTHER\<close>.\<close>

datatype sqltype =
  SQL_BIT | SQL_TINYINT | SQL_SMALLINT | SQL_INTEGER | SQL_BIGINT
  | SQL_DOUBLE | SQL_FLOAT | SQL_DECIMAL | SQL_REAL | SQL_NUMERIC
  | SQL_DATE | SQL_TYPE_DATE | SQL_TIME | SQL_TYPE_TIME | SQL_TIMESTAMP | SQL_TYPE_TIMESTAMP
  | SQL_CHAR | SQL_VARCHAR | SQL_WCHAR | SQL_WVARCHAR | SQL_LONGVARCHAR
  | SQL_BINARY | SQL_VARBINARY | SQL_LONGVARBINARY | SQL_SS_UDT
  | SQL_OTHER int

text \<open>C buffer type codes named in the source; \<open>SQL_C_0\<close> is the \<^verbatim>\<open>ctype_(0)\<close> of a fresh column.\<close>

datatype ctype =
  SQL_C_0
  | SQL_C_CHAR | SQL_C_WCHAR | SQL_C_BINARY | SQL_C_GUID
  | SQL_C_SSHORT | SQL_C_USHORT | SQL_C_LONG | SQL_C_SLONG | SQL_C_ULONG
  | SQL_C_FLOAT | SQL_C_DOUBLE | SQL_C_SBIGINT | SQL_C_UBIGINT
  | SQL_C_DATE | SQL_C_TIME | SQL_C_TIMESTAMP

definition SQL_NULL_DATA :: int where
  "SQL_NULL_DATA = - 1"

text \<open>\<^verbatim>\<open>static_cast<SQLULEN>(SQL_ROW_NUMBER_UNKNOWN)\<close>, the code being \<open>-2\<close>.\<close>

definition SQL_ROW_NUMBER_UNKNOWN :: nat where
  "SQL_ROW_NUMBER_UNKNOWN = 2 ^ 64 - 2"

record bound_column =
  name :: string
  column_ord :: int
  sqltype :: sqltype
  sqlsize :: nat
  scale :: int
  ctype :: ctype
  clen :: nat
  blob :: bool
  cbdata :: "int list option"
  pdata :: "string option"

text \<open>The default constructor \<^verbatim>\<open>bound_column()\<close>.\<close>

definition new_bound_column :: bound_column where
  "new_bound_column =
     \<lparr>name = [], column_ord = 0, sqltype = SQL_OTHER 0, sqlsize = 0, scale = 0,
      ctype = SQL_C_0, clen = 0, blob = False, cbdata = None, pdata = None\<rparr>"

text \<open>
  The members of \<^verbatim>\<open>ResultImpl\<close>. The array \<^verbatim>\<open>bound_columns_\<close> and its length
  \<^verbatim>\<open>bound_columns_size_\<close> are one list. \<^verbatim>\<open>bound_columns_by_name_\<close> maps a name to the
  index of the column its pointer refers to. \<open>stmt\<close> is the state of the native
  statement. \<open>fetch_log\<close> is a ghost field: the arguments of every \<^verbatim>\<open>SQLFetchScroll\<close> call
  made so far, in order.
\<close>

record 'd ResultImpl =
  stmt :: 'd
  rowset_size :: int
  row_count :: nat
  bound_columns :: "bound_column list"
  rowset_position :: int
  bound_columns_by_name :: "string \<rightharpoonup> nat"
  at_end :: bool
  fetch_log :: "(orientation \<times> int) list"

definition bound_columns_size :: "'d ResultImpl \<Rightarrow> int" where
  "bound_columns_size r = int (length (bound_columns r))"

subsection \<open>The native layer\<close>

text \<open>
  The ODBC driver is outside the repository; its entry points are the fields of a record
  the operations take as a parameter. A driver writes only into the buffers it was
  given: \<open>SQLFetchScroll\<close> sees the bound columns and answers with its return code, the
  value it stores through \<^verbatim>\<open>SQL_ATTR_ROWS_FETCHED_PTR\<close>, and per column the bytes and
  indicators it writes from the start of the bound arrays. Numbers a driver stores in a
  \<^verbatim>\<open>SQLULEN\<close> are below \<open>2 ^ 64\<close>.
\<close>

record describe_out =
  do_columnName :: string
  do_sqltype :: sqltype
  do_sqlsize :: nat
  do_scale :: int

type_synonym bufs = "(int list \<times> string) list"

record 'd native =
  SQLSetStmtAttr_ROW_ARRAY_SIZE :: "'d \<Rightarrow> int \<Rightarrow> 'd \<times> retcode"
  SQLSetStmtAttr_ROWS_FETCHED_PTR :: "'d \<Rightarrow> 'd \<times> retcode"
  SQLNumResultCols :: "'d \<Rightarrow> retcode \<times> int"
  SQLDescribeCol :: "'d \<Rightarrow> int \<Rightarrow> retcode \<times> describe_out"
  SQLBindCol :: "'d \<Rightarrow> int \<Rightarrow> ctype \<Rightarrow> bool \<Rightarrow> nat \<Rightarrow> retcode"
  SQLFetchScroll :: "'d \<Rightarrow> orientation \<Rightarrow> int \<Rightarrow> bound_column list \<Rightarrow> 'd \<times> retcode \<times> nat \<times> bufs"
  SQLGetStmtAttr_ROW_NUMBER :: "'d \<Rightarrow> retcode \<times> nat"

text \<open>Writing \<open>new\<close> from the start of a fixed-size array \<open>old\<close>.\<close>

definition overlay :: "'a list \<Rightarrow> 'a list \<Rightarrow> 'a list" where
  "overlay old new = take (length old) (new @ drop (length new) old)"

fun store_bufs :: "bound_column list \<Rightarrow> bufs \<Rightarrow> bound_column list" where
  "store_bufs [] bs = []"
| "store_bufs (c # cs) [] = c # cs"
| "store_bufs (c # cs) ((cb, pd) # bs) =
     c\<lparr>cbdata := map_option (\<lambda>old. overlay old cb) (cbdata c),
       pdata := map_option (\<lambda>old. overlay old pd) (pdata c)\<rparr> # store_bufs cs bs"

section \<open>Navigation\<close>

text \<open>\<^verbatim>\<open>static_cast<long>(row_count_)\<close> and \<^verbatim>\<open>static_cast<unsigned long>(rows())\<close>.\<close>

definition to_long :: "nat \<Rightarrow> int" where
  "to_long n = (let m = n mod 2 ^ 64 in if m < 2 ^ 63 then int m else int m - 2 ^ 64)"

definition to_ulong :: "int \<Rightarrow> nat" where
  "to_ulong i = nat (i mod 2 ^ 64)"

definition rows :: "'d ResultImpl \<Rightarrow> int" where
  "rows r = to_long (row_count r)"

text \<open>
  \<^verbatim>\<open>before_move\<close> writes \<^verbatim>\<open>cbdata_[j] = 0\<close> for \<open>j < rowset_size\<close> in every column;
  \<open>bound_ok\<close> says these writes stay inside allocated arrays. \<^verbatim>\<open>fetch\<close> is undefined
  otherwise.
\<close>

definition indicators_ok :: "int \<Rightarrow> bound_column \<Rightarrow> bool" where
  "indicators_ok n col =
     (case cbdata col of None \<Rightarrow> n \<le> 0 | Some cb \<Rightarrow> n \<le> int (length cb))"

definition bound_ok :: "'d ResultImpl \<Rightarrow> bool" where
  "bound_ok r = list_all (indicators_ok (rowset_size r)) (bound_columns r)"

definition release_bound_resources :: "bound_column \<Rightarrow> bound_column" where
  "release_bound_resources col = col\<lparr>pdata := None, clen := 0\<rparr>"

definition before_move_column :: "int \<Rightarrow> bound_column \<Rightarrow> bound_column" where
  "before_move_column n col =
     (let col1 = col\<lparr>cbdata :=
            map_option (\<lambda>cb. replicate (nat n) 0 @ drop (nat n) cb) (cbdata col)\<rparr>
      in if blob col1 \<and> pdata col1 \<noteq> None then release_bound_resources col1 else col1)"

definition before_move :: "'d ResultImpl \<Rightarrow> 'd ResultImpl" where
  "before_move r =
     r\<lparr>bound_columns := map (before_move_column (rowset_size r)) (bound_columns r)\<rparr>"

text \<open>The part of \<^verbatim>\<open>fetch\<close> after \<^verbatim>\<open>before_move()\<close>: the native call and its outcome.\<close>

definition native_fetch ::
  "'d native \<Rightarrow> int \<Rightarrow> orientation \<Rightarrow> 'd ResultImpl \<Rightarrow> 'd ResultImpl \<times> (error + bool)" where
  "native_fetch drv n ori r =
     (case SQLFetchScroll drv (stmt r) ori n (bound_columns r) of
        (d, rc, cnt, bs) \<Rightarrow>
          let r1 = r\<lparr>stmt := d, row_count := cnt,
                     bound_columns := store_bufs (bound_columns r) bs,
                     fetch_log := fetch_log r @ [(ori, n)]\<rparr>
          in if rc = SQL_NO_DATA then (r1\<lparr>at_end := True\<rparr>, Inr False)
             else if \<not> success rc then (r1, Inl DatabaseError)
             else (r1, Inr True))"

definition fetch ::
  "'d native \<Rightarrow> int \<Rightarrow> orientation \<Rightarrow> 'd ResultImpl \<Rightarrow> 'd ResultImpl \<times> (error + bool)" where
  "fetch drv n ori r =
     (if \<not> bound_ok r then (r, Inl UndefinedBehaviour)
      else native_fetch drv n ori (before_move r))"

definition first :: "'d native \<Rightarrow> 'd ResultImpl \<Rightarrow> 'd ResultImpl \<times> (error + bool)" where
  "first drv r = fetch drv 0 SQL_FETCH_FIRST (r\<lparr>rowset_position := 0\<rparr>)"

definition last_row :: "'d native \<Rightarrow> 'd ResultImpl \<Rightarrow> 'd ResultImpl \<times> (error + bool)" where
  "last_row drv r = fetch drv 0 SQL_FETCH_LAST (r\<lparr>rowset_position := 0\<rparr>)"

definition "next" :: "'d native \<Rightarrow> 'd ResultImpl \<Rightarrow> 'd ResultImpl \<times> (error + bool)" where
  "next drv r =
     (if rows r \<noteq> 0 \<and> rowset_position r + 1 < rowset_size r
      then (r\<lparr>rowset_position := rowset_position r + 1\<rparr>,
            Inr (rowset_position r + 1 < rows r))
      else fetch drv 0 SQL_FETCH_NEXT (r\<lparr>rowset_position := 0\<rparr>))"

definition prior :: "'d native \<Rightarrow> 'd ResultImpl \<Rightarrow> 'd ResultImpl \<times> (error + bool)" where
  "prior drv r =
     (if rows r \<noteq> 0 \<and> rowset_position r - 1 \<ge> 0
      then (r\<lparr>rowset_position := rowset_position r - 1\<rparr>, Inr True)
      else fetch drv 0 SQL_FETCH_PRIOR (r\<lparr>rowset_position := 0\<rparr>))"

definition move :: "'d native \<Rightarrow> int \<Rightarrow> 'd ResultImpl \<Rightarrow> 'd ResultImpl \<times> (error + bool)" where
  "move drv row r = fetch drv row SQL_FETCH_ABSOLUTE (r\<lparr>rowset_position := 0\<rparr>)"

definition skip :: "'d native \<Rightarrow> int \<Rightarrow> 'd ResultImpl \<Rightarrow> 'd ResultImpl \<times> (error + bool)" where
  "skip drv n r =
     (let r1 = r\<lparr>rowset_position := rowset_position r + n\<rparr>
      in if rows r1 \<noteq> 0 \<and> rowset_position r1 < rowset_size r1
         then (r1, Inr (rowset_position r1 < rows r1))
         else fetch drv n SQL_FETCH_RELATIVE (r1\<lparr>rowset_position := 0\<rparr>))"

definition position :: "'d native \<Rightarrow> 'd ResultImpl \<Rightarrow> error + nat" where
  "position drv r =
     (case SQLGetStmtAttr_ROW_NUMBER drv (stmt r) of
        (rc, pos) \<Rightarrow>
          if \<not> success rc then Inl DatabaseError
          else if pos = 0 \<or> pos = SQL_ROW_NUMBER_UNKNOWN then Inr 0
          else Inr (to_ulong (int pos + rowset_position r)))"

definition atEnd :: "'d native \<Rightarrow> 'd ResultImpl \<Rightarrow> bool" where
  "atEnd drv r =
     (if at_end r then True
      else case SQLGetStmtAttr_ROW_NUMBER drv (stmt r) of
        (rc, pos) \<Rightarrow>
          \<not> success rc \<or> rows r < 0 \<or> to_ulong (int pos - 1) > to_ulong (rows r))"

section \<open>Typed access\<close>

text \<open>
  \<^verbatim>\<open>isNull\<close> compares the column number with the number of columns only from above; with
  a negative number, \<^verbatim>\<open>bound_columns_[column]\<close> refers to an element before the array.
\<close>

definition isNull :: "'d ResultImpl \<Rightarrow> int \<Rightarrow> error + bool" where
  "isNull r c =
     (if c \<ge> bound_columns_size r then Inl IndexRangeError
      else if c < 0 then Inl UndefinedBehaviour
      else if rowset_position r \<ge> rows r then Inl IndexRangeError
      else case cbdata (bound_columns r ! nat c) of
             None \<Rightarrow> Inl UndefinedBehaviour
           | Some cb \<Rightarrow>
               if 0 \<le> rowset_position r \<and> rowset_position r < int (length cb)
               then Inr (cb ! nat (rowset_position r) = SQL_NULL_DATA)
               else Inl UndefinedBehaviour)"

text \<open>\<^verbatim>\<open>column(columnName)\<close>: the \<^verbatim>\<open>column_\<close> member of the column the map points to.\<close>

definition column :: "'d ResultImpl \<Rightarrow> string \<Rightarrow> error + int" where
  "column r columnName =
     (case bound_columns_by_name r columnName of
        None \<Rightarrow> Inl IndexRangeError
      | Some i \<Rightarrow>
          if i < length (bound_columns r) then Inr (column_ord (bound_columns r ! i))
          else Inl UndefinedBehaviour)"

definition isNull_name :: "'d ResultImpl \<Rightarrow> string \<Rightarrow> error + bool" where
  "isNull_name r columnName =
     (case column r columnName of Inl e \<Rightarrow> Inl e | Inr c \<Rightarrow> isNull r c)"

text \<open>
  The four overloads of the template \<^verbatim>\<open>getRef<T>\<close>. The specialisation
  \<^verbatim>\<open>get_ref_impl<T>\<close> they end in is the parameter \<open>impl\<close>; the value written to
  \<^verbatim>\<open>Result\<close> is the value returned. \<^verbatim>\<open>get<T>\<close> declares \<^verbatim>\<open>T Result\<close>, calls
  \<^verbatim>\<open>getRef\<close> and returns \<^verbatim>\<open>Result\<close>.
\<close>

definition getRef ::
  "('d ResultImpl \<Rightarrow> int \<Rightarrow> error + 'a) \<Rightarrow> 'd ResultImpl \<Rightarrow> int \<Rightarrow> error + 'a" where
  "getRef impl r c =
     (if c \<ge> bound_columns_size r then Inl IndexRangeError
      else case isNull r c of
             Inl e \<Rightarrow> Inl e
           | Inr True \<Rightarrow> Inl NullAccessError
           | Inr False \<Rightarrow> impl r c)"

definition getRef_fallback ::
  "('d ResultImpl \<Rightarrow> int \<Rightarrow> error + 'a) \<Rightarrow> 'd ResultImpl \<Rightarrow> int \<Rightarrow> 'a \<Rightarrow> error + 'a" where
  "getRef_fallback impl r c fallback =
     (if c \<ge> bound_columns_size r then Inl IndexRangeError
      else case isNull r c of
             Inl e \<Rightarrow> Inl e
           | Inr True \<Rightarrow> Inr fallback
           | Inr False \<Rightarrow> impl r c)"

definition getRef_name ::
  "('d ResultImpl \<Rightarrow> int \<Rightarrow> error + 'a) \<Rightarrow> 'd ResultImpl \<Rightarrow> string \<Rightarrow> error + 'a" where
  "getRef_name impl r columnName =
     (case column r columnName of
        Inl e \<Rightarrow> Inl e
      | Inr c \<Rightarrow>
          (case isNull r c of
             Inl e \<Rightarrow> Inl e
           | Inr True \<Rightarrow> Inl NullAccessError
           | Inr False \<Rightarrow> impl r c))"

definition getRef_name_fallback ::
  "('d ResultImpl \<Rightarrow> int \<Rightarrow> error + 'a) \<Rightarrow> 'd ResultImpl \<Rightarrow> string \<Rightarrow> 'a \<Rightarrow> error + 'a" where
  "getRef_name_fallback impl r columnName fallback =
     (case column r columnName of
        Inl e \<Rightarrow> Inl e
      | Inr c \<Rightarrow>
          (case isNull r c of
             Inl e \<Rightarrow> Inl e
           | Inr True \<Rightarrow> Inr fallback
           | Inr False \<Rightarrow> impl r c))"

definition get ::
  "('d ResultImpl \<Rightarrow> int \<Rightarrow> error + 'a) \<Rightarrow> 'd ResultImpl \<Rightarrow> int \<Rightarrow> error + 'a" where
  "get impl r c = getRef impl r c"

definition get_fallback ::
  "('d ResultImpl \<Rightarrow> int \<Rightarrow> error + 'a) \<Rightarrow> 'd ResultImpl \<Rightarrow> int \<Rightarrow> 'a \<Rightarrow> error + 'a" where
  "get_fallback impl r c fallback = getRef_fallback impl r c fallback"

definition get_name ::
  "('d ResultImpl \<Rightarrow> int \<Rightarrow> error + 'a) \<Rightarrow> 'd ResultImpl \<Rightarrow> string \<Rightarrow> error + 'a" where
  "get_name impl r columnName = getRef_name impl r columnName"

definition get_name_fallback ::
  "('d ResultImpl \<Rightarrow> int \<Rightarrow> error + 'a) \<Rightarrow> 'd ResultImpl \<Rightarrow> string \<Rightarrow> 'a \<Rightarrow> error + 'a" where
  "get_name_fallback impl r columnName fallback = getRef_name_fallback impl r columnName fallback"

subsection \<open>The generic \<^verbatim>\<open>get_ref_impl<T>\<close>\<close>

text \<open>
  The unspecialised template serves the numeric targets (\<^verbatim>\<open>char\<close>, \<^verbatim>\<open>short\<close>,
  \<^verbatim>\<open>unsigned short\<close>, \<^verbatim>\<open>int32_t\<close>, \<^verbatim>\<open>uint32_t\<close>, \<^verbatim>\<open>int64_t\<close>, \<^verbatim>\<open>uint64_t\<close>,
  \<^verbatim>\<open>float\<close>, \<^verbatim>\<open>double\<close>). Each case evaluates \<^verbatim>\<open>(T) * (U*)(s)\<close> with
  \<^verbatim>\<open>s = pdata_ + rowset_position_ * clen_\<close>. The result \<open>(U, bytes)\<close> is the object of C type
  \<open>U\<close> read at \<open>s\<close>, given by its bytes; the final cast to \<open>T\<close> is the same for every case
  and is left to the reader of the value.
\<close>

datatype ckind =
  c_char | c_short | c_unsigned_short | c_int32_t | c_uint32_t
  | c_float | c_double | c_int64_t | c_uint64_t

fun sizeof :: "ckind \<Rightarrow> nat" where
  "sizeof c_char = 1"
| "sizeof c_short = 2"
| "sizeof c_unsigned_short = 2"
| "sizeof c_int32_t = 4"
| "sizeof c_uint32_t = 4"
| "sizeof c_float = 4"
| "sizeof c_double = 8"
| "sizeof c_int64_t = 8"
| "sizeof c_uint64_t = 8"

definition deref :: "bound_column \<Rightarrow> int \<Rightarrow> ckind \<Rightarrow> error + ckind \<times> string" where
  "deref col pos k =
     (case pdata col of
        None \<Rightarrow> Inl UndefinedBehaviour
      | Some buf \<Rightarrow>
          let off = pos * int (clen col)
          in if 0 \<le> off \<and> off + int (sizeof k) \<le> int (length buf)
             then Inr (k, take (sizeof k) (drop (nat off) buf))
             else Inl UndefinedBehaviour)"

definition get_ref_impl :: "'d ResultImpl \<Rightarrow> int \<Rightarrow> error + ckind \<times> string" where
  "get_ref_impl r c =
     (if c < 0 \<or> c \<ge> bound_columns_size r then Inl UndefinedBehaviour
      else let col = bound_columns r ! nat c; pos = rowset_position r
           in case ctype col of
                SQL_C_CHAR \<Rightarrow> deref col pos c_char
              | SQL_C_SSHORT \<Rightarrow> deref col pos c_short
              | SQL_C_USHORT \<Rightarrow> deref col pos c_unsigned_short
              | SQL_C_LONG \<Rightarrow> deref col pos c_int32_t
              | SQL_C_SLONG \<Rightarrow> deref col pos c_int32_t
              | SQL_C_ULONG \<Rightarrow> deref col pos c_uint32_t
              | SQL_C_FLOAT \<Rightarrow> deref col pos c_float
              | SQL_C_DOUBLE \<Rightarrow> deref col pos c_double
              | SQL_C_SBIGINT \<Rightarrow> deref col pos c_int64_t
              | SQL_C_UBIGINT \<Rightarrow> deref col pos c_uint64_t
              | _ \<Rightarrow> Inl TypeIncompatipleError)"

section \<open>Auto-binding\<close>

text \<open>A character array read as a C string: the characters before the first NUL.\<close>

definition c_str :: "string \<Rightarrow> string" where
  "c_str buf = takeWhile (\<lambda>ch. ch \<noteq> CHR 0x00) buf"

text \<open>
  The \<^verbatim>\<open>switch (col.sqltype_)\<close> of \<^verbatim>\<open>auto_bind\<close>. Sizes: \<^verbatim>\<open>int64_t\<close> and \<^verbatim>\<open>double\<close> 8,
  \<^verbatim>\<open>date\<close> and \<^verbatim>\<open>time\<close> three 16-bit fields, \<^verbatim>\<open>timestamp\<close> six 16-bit fields and one
  32-bit field, \<^verbatim>\<open>SQLCHAR\<close> 1, \<^verbatim>\<open>SQLWCHAR\<close> 2.
\<close>

definition bind_text :: "ctype \<Rightarrow> nat \<Rightarrow> bool \<Rightarrow> bound_column \<Rightarrow> bound_column" where
  "bind_text ct width is_blob col =
     (let col1 = col\<lparr>ctype := ct, clen := ((sqlsize col + 1) * width) mod 2 ^ 64\<rparr>
      in if is_blob then col1\<lparr>clen := 0, blob := True\<rparr> else col1)"

fun bind_type :: "sqltype \<Rightarrow> bool \<Rightarrow> bound_column \<Rightarrow> bound_column" where
  "bind_type SQL_BIT b col = col\<lparr>ctype := SQL_C_SBIGINT, clen := 8\<rparr>"
| "bind_type SQL_TINYINT b col = col\<lparr>ctype := SQL_C_SBIGINT, clen := 8\<rparr>"
| "bind_type SQL_SMALLINT b col = col\<lparr>ctype := SQL_C_SBIGINT, clen := 8\<rparr>"
| "bind_type SQL_INTEGER b col = col\<lparr>ctype := SQL_C_SBIGINT, clen := 8\<rparr>"
| "bind_type SQL_BIGINT b col = col\<lparr>ctype := SQL_C_SBIGINT, clen := 8\<rparr>"
| "bind_type SQL_DOUBLE b col = col\<lparr>ctype := SQL_C_DOUBLE, clen := 8\<rparr>"
| "bind_type SQL_FLOAT b col = col\<lparr>ctype := SQL_C_DOUBLE, clen := 8\<rparr>"
| "bind_type SQL_DECIMAL b col = col\<lparr>ctype := SQL_C_DOUBLE, clen := 8\<rparr>"
| "bind_type SQL_REAL b col = col\<lparr>ctype := SQL_C_DOUBLE, clen := 8\<rparr>"
| "bind_type SQL_NUMERIC b col = col\<lparr>ctype := SQL_C_DOUBLE, clen := 8\<rparr>"
| "bind_type SQL_DATE b col = col\<lparr>ctype := SQL_C_DATE, clen := 6\<rparr>"
| "bind_type SQL_TYPE_DATE b col = col\<lparr>ctype := SQL_C_DATE, clen := 6\<rparr>"
| "bind_type SQL_TIME b col = col\<lparr>ctype := SQL_C_TIME, clen := 6\<rparr>"
| "bind_type SQL_TYPE_TIME b col = col\<lparr>ctype := SQL_C_TIME, clen := 6\<rparr>"
| "bind_type SQL_TIMESTAMP b col = col\<lparr>ctype := SQL_C_TIMESTAMP, clen := 16\<rparr>"
| "bind_type SQL_TYPE_TIMESTAMP b col = col\<lparr>ctype := SQL_C_TIMESTAMP, clen := 16\<rparr>"
| "bind_type SQL_CHAR b col = bind_text SQL_C_CHAR 1 b col"
| "bind_type SQL_VARCHAR b col = bind_text SQL_C_CHAR 1 b col"
| "bind_type SQL_WCHAR b col = bind_text SQL_C_WCHAR 2 b col"
| "bind_type SQL_WVARCHAR b col = bind_text SQL_C_WCHAR 2 b col"
| "bind_type SQL_LONGVARCHAR b col = col\<lparr>ctype := SQL_C_CHAR, blob := True, clen := 0\<rparr>"
| "bind_type SQL_BINARY b col = col\<lparr>ctype := SQL_C_BINARY, blob := True, clen := 0\<rparr>"
| "bind_type SQL_VARBINARY b col = col\<lparr>ctype := SQL_C_BINARY, blob := True, clen := 0\<rparr>"
| "bind_type SQL_LONGVARBINARY b col = col\<lparr>ctype := SQL_C_BINARY, blob := True, clen := 0\<rparr>"
| "bind_type SQL_SS_UDT b col = col\<lparr>ctype := SQL_C_BINARY, blob := True, clen := 0\<rparr>"
| "bind_type (SQL_OTHER n) b col = col\<lparr>ctype := SQL_C_CHAR, clen := 128\<rparr>"

text \<open>One pass of the first loop of \<^verbatim>\<open>auto_bind\<close>, after a successful \<^verbatim>\<open>SQLDescribeCol\<close>.\<close>

definition describe_column :: "nat \<Rightarrow> describe_out \<Rightarrow> bound_column \<Rightarrow> bound_column" where
  "describe_column i out col =
     (let is_blob = (do_sqlsize out = 0 \<and> (do_sqltype out = SQL_VARCHAR \<or> do_sqltype out = SQL_WVARCHAR));
          col1 = col\<lparr>name := c_str (do_columnName out), column_ord := int i,
                     sqltype := do_sqltype out, sqlsize := do_sqlsize out,
                     scale := do_scale out\<rparr>
      in bind_type (sqltype col1) is_blob col1)"

fun describe_columns ::
  "'d native \<Rightarrow> 'd \<Rightarrow> nat list \<Rightarrow> bound_column list \<Rightarrow> (string \<rightharpoonup> nat)
     \<Rightarrow> (bound_column list \<times> (string \<rightharpoonup> nat)) \<times> (error + unit)" where
  "describe_columns drv d [] cols names = ((cols, names), Inr ())"
| "describe_columns drv d (i # is) cols names =
     (case SQLDescribeCol drv d (int i + 1) of
        (rc, out) \<Rightarrow>
          if \<not> success rc then ((cols, names), Inl DatabaseError)
          else let col = describe_column i out (cols ! i)
               in describe_columns drv d is (cols[i := col]) (names(name col \<mapsto> i)))"

text \<open>
  The second loop. \<^verbatim>\<open>new NullType[rowset_size_]\<close> and \<^verbatim>\<open>new char[rowset_size_ * clen_]\<close>
  leave their elements indeterminate: \<open>uninit i\<close> supplies the initial contents for
  column \<open>i\<close>, cut or padded to the allocated length.
\<close>

definition alloc :: "nat \<Rightarrow> 'a \<Rightarrow> 'a list \<Rightarrow> 'a list" where
  "alloc n pad xs = take n (xs @ replicate n pad)"

definition allocate_buffers ::
  "int \<Rightarrow> (nat \<Rightarrow> int list \<times> string) \<Rightarrow> nat \<Rightarrow> bound_column \<Rightarrow> bound_column" where
  "allocate_buffers n uninit i col =
     (let col1 = col\<lparr>cbdata := Some (alloc (nat n) 0 (fst (uninit i)))\<rparr>
      in if blob col1 then col1
         else col1\<lparr>pdata := Some (alloc (nat n * clen col1) (CHR 0x00) (snd (uninit i)))\<rparr>)"

fun bind_columns ::
  "'d native \<Rightarrow> 'd \<Rightarrow> int \<Rightarrow> (nat \<Rightarrow> int list \<times> string) \<Rightarrow> nat list \<Rightarrow> bound_column list
     \<Rightarrow> bound_column list \<times> (error + unit)" where
  "bind_columns drv d n uninit [] cols = (cols, Inr ())"
| "bind_columns drv d n uninit (i # is) cols =
     (if n < 0 then (cols, Inl BadArrayNewLength)
      else let col = allocate_buffers n uninit i (cols ! i);
               rc = (if blob col then SQLBindCol drv d (int i + 1) (ctype col) False 0
                     else SQLBindCol drv d (int i + 1) (ctype col) True (clen col))
           in if \<not> success rc then (cols[i := col], Inl DatabaseError)
              else bind_columns drv d n uninit is (cols[i := col]))"

text \<open>
  \<^verbatim>\<open>auto_bind\<close> starts with \<^verbatim>\<open>cleanup_bound_columns()\<close>, which runs \<^verbatim>\<open>before_move()\<close>
  and then deletes the column array and clears the name map.
\<close>

definition auto_bind ::
  "'d native \<Rightarrow> (nat \<Rightarrow> int list \<times> string) \<Rightarrow> 'd ResultImpl \<Rightarrow> 'd ResultImpl \<times> (error + unit)" where
  "auto_bind drv uninit r =
     (if \<not> bound_ok r then (r, Inl UndefinedBehaviour)
      else
        let r0 = r\<lparr>bound_columns := [], bound_columns_by_name := Map.empty\<rparr>
        in case SQLNumResultCols drv (stmt r0) of
             (rc, n_columns) \<Rightarrow>
               if \<not> success rc then (r0, Inl DatabaseError)
               else if n_columns < 1 then (r0, Inr ())
               else
                 (case describe_columns drv (stmt r0) [0..<nat n_columns]
                         (replicate (nat n_columns) new_bound_column) Map.empty of
                    ((cols, names), Inl e) \<Rightarrow>
                      (r0\<lparr>bound_columns := cols, bound_columns_by_name := names\<rparr>, Inl e)
                  | ((cols, names), Inr u) \<Rightarrow>
                      (case bind_columns drv (stmt r0) (rowset_size r0) uninit
                              [0..<nat n_columns] cols of
                         (cols1, res) \<Rightarrow>
                           (r0\<lparr>bound_columns := cols1, bound_columns_by_name := names\<rparr>, res))))"

text \<open>The constructor \<^verbatim>\<open>ResultImpl(Statement stmt, long rowsetSize)\<close>.\<close>

definition ResultImpl_ctor ::
  "'d native \<Rightarrow> (nat \<Rightarrow> int list \<times> string) \<Rightarrow> 'd \<Rightarrow> int \<Rightarrow> 'd ResultImpl \<times> (error + unit)" where
  "ResultImpl_ctor drv uninit s rowsetSize =
     (let r = \<lparr>stmt = s, rowset_size = rowsetSize, row_count = 0, bound_columns = [],
               rowset_position = 0, bound_columns_by_name = Map.empty, at_end = False,
               fetch_log = []\<rparr>
      in case SQLSetStmtAttr_ROW_ARRAY_SIZE drv s rowsetSize of
           (d1, rc1) \<Rightarrow>
             if \<not> success rc1 then (r\<lparr>stmt := d1\<rparr>, Inl DatabaseError)
             else (case SQLSetStmtAttr_ROWS_FETCHED_PTR drv d1 of
                     (d2, rc2) \<Rightarrow>
                       if \<not> success rc2 then (r\<lparr>stmt := d2\<rparr>, Inl DatabaseError)
                       else auto_bind drv uninit (r\<lparr>stmt := d2\<rparr>)))"

text \<open>
  The sibling allocation in \<^verbatim>\<open>Statement::StatementImpl::prepare_bind\<close>, for the indicator
  vector of a bound parameter:
  \<^verbatim>\<open>const std::size_t indicator_size = elements > 8 ? elements : 8;\<close>
\<close>

definition prepare_bind_indicator_size :: "nat \<Rightarrow> nat" where
  "prepare_bind_indicator_size elements = (if elements > 8 then elements else 8)"

section \<open>A conformant driver over a stored table\<close>

text \<open>
  A reference driver for the statements that depend on what the driver answers: a
  scrollable cursor over a finite table, positioned by the rules the ODBC reference gives
  for \<^verbatim>\<open>SQLFetchScroll\<close> (rowset start \<open>s\<close> counted from 1, rowset size \<open>B\<close>, last row
  \<open>L\<close>). \<^verbatim>\<open>SQL_ATTR_ROW_NUMBER\<close> is the number of the first row of the rowset, and 0 when
  there is no current row, as the comment in \<^verbatim>\<open>position()\<close> quotes it. A cell is an
  indicator and the bytes of its value.
\<close>

datatype cursor = BeforeStart | RowsetStart int | AfterEnd

record table_stmt =
  ts_columns :: "describe_out list"
  ts_table :: "(int \<times> string) list list"
  ts_rowset_size :: int
  ts_cursor :: cursor

definition place :: "int \<Rightarrow> int \<Rightarrow> cursor" where
  "place L s = (if s < 1 then BeforeStart else if s > L then AfterEnd else RowsetStart s)"

definition absolute :: "int \<Rightarrow> int \<Rightarrow> int \<Rightarrow> cursor" where
  "absolute B L n =
     (if n < 0 then
        (if - n \<le> L then RowsetStart (L + n + 1)
         else if - n > B then BeforeStart
         else place L 1)
      else place L n)"

fun scroll :: "orientation \<Rightarrow> int \<Rightarrow> int \<Rightarrow> int \<Rightarrow> cursor \<Rightarrow> cursor" where
  "scroll SQL_FETCH_FIRST n B L c = place L 1"
| "scroll SQL_FETCH_LAST n B L c = (if B \<le> L then RowsetStart (L - B + 1) else place L 1)"
| "scroll SQL_FETCH_ABSOLUTE n B L c = absolute B L n"
| "scroll SQL_FETCH_NEXT n B L BeforeStart = place L 1"
| "scroll SQL_FETCH_NEXT n B L (RowsetStart s) = place L (s + B)"
| "scroll SQL_FETCH_NEXT n B L AfterEnd = AfterEnd"
| "scroll SQL_FETCH_PRIOR n B L BeforeStart = BeforeStart"
| "scroll SQL_FETCH_PRIOR n B L (RowsetStart s) =
     (if s = 1 then BeforeStart else if s \<le> B then RowsetStart 1 else RowsetStart (s - B))"
| "scroll SQL_FETCH_PRIOR n B L AfterEnd =
     (if L < B then place L 1 else RowsetStart (L - B + 1))"
| "scroll SQL_FETCH_RELATIVE n B L BeforeStart = (if n > 0 then absolute B L n else BeforeStart)"
| "scroll SQL_FETCH_RELATIVE n B L AfterEnd = (if n < 0 then absolute B L n else AfterEnd)"
| "scroll SQL_FETCH_RELATIVE n B L (RowsetStart s) =
     (if s + n < 1 then
        (if s = 1 then BeforeStart else if \<bar>n\<bar> > B then BeforeStart else RowsetStart 1)
      else place L (s + n))"

definition cell_at :: "(int \<times> string) list \<Rightarrow> nat \<Rightarrow> int \<times> string" where
  "cell_at row j = (if j < length row then row ! j else (SQL_NULL_DATA, []))"

text \<open>What the driver writes for column \<open>j\<close> when it delivers \<open>rws\<close>: one indicator and one slot of \<open>clen\<close> bytes per row.\<close>

definition column_image :: "(int \<times> string) list list \<Rightarrow> nat \<Rightarrow> bound_column \<Rightarrow> int list \<times> string" where
  "column_image rws j col =
     (map (\<lambda>row. fst (cell_at row j)) rws,
      concat (map (\<lambda>row. alloc (clen col) (CHR 0x00) (snd (cell_at row j))) rws))"

definition table_fetch ::
  "table_stmt \<Rightarrow> orientation \<Rightarrow> int \<Rightarrow> bound_column list \<Rightarrow> table_stmt \<times> retcode \<times> nat \<times> bufs" where
  "table_fetch d ori n cols =
     (let B = ts_rowset_size d; L = int (length (ts_table d));
          c = scroll ori n B L (ts_cursor d)
      in case c of
           RowsetStart s \<Rightarrow>
             (let rws = take (nat B) (drop (nat (s - 1)) (ts_table d))
              in (d\<lparr>ts_cursor := c\<rparr>, SQL_SUCCESS, length rws,
                  map (\<lambda>j. column_image rws j (cols ! j)) [0..<length cols]))
         | _ \<Rightarrow> (d\<lparr>ts_cursor := c\<rparr>, SQL_NO_DATA, 0, []))"

definition table_driver :: "table_stmt native" where
  "table_driver =
     \<lparr>SQLSetStmtAttr_ROW_ARRAY_SIZE =
        (\<lambda>d n. if n < 1 then (d, SQL_ERROR) else (d\<lparr>ts_rowset_size := n\<rparr>, SQL_SUCCESS)),
      SQLSetStmtAttr_ROWS_FETCHED_PTR = (\<lambda>d. (d, SQL_SUCCESS)),
      SQLNumResultCols = (\<lambda>d. (SQL_SUCCESS, int (length (ts_columns d)))),
      SQLDescribeCol =
        (\<lambda>d i. if 1 \<le> i \<and> i \<le> int (length (ts_columns d))
               then (SQL_SUCCESS, ts_columns d ! nat (i - 1))
               else (SQL_ERROR,
                     \<lparr>do_columnName = [], do_sqltype = SQL_OTHER 0, do_sqlsize = 0, do_scale = 0\<rparr>)),
      SQLBindCol =
        (\<lambda>d i ct has_buffer len.
           if 1 \<le> i \<and> i \<le> int (length (ts_columns d)) then SQL_SUCCESS else SQL_ERROR),
      SQLFetchScroll = table_fetch,
      SQLGetStmtAttr_ROW_NUMBER =
        (\<lambda>d. case ts_cursor d of
               RowsetStart s \<Rightarrow> (SQL_SUCCESS, nat s)
             | _ \<Rightarrow> (SQL_SUCCESS, 0))\<rparr>"

text \<open>\<open>next_times drv k\<close>: \<open>k\<close> calls of \<^verbatim>\<open>next()\<close> in a row, with the outcome of each.\<close>

fun next_times ::
  "'d native \<Rightarrow> nat \<Rightarrow> 'd ResultImpl \<Rightarrow> 'd ResultImpl \<times> (error + bool) list" where
  "next_times drv 0 r = (r, [])"
| "next_times drv (Suc k) r =
     (case next drv r of
        (r1, res) \<Rightarrow> (case next_times drv k r1 of (r2, ress) \<Rightarrow> (r2, res # ress)))"

text \<open>
  Names for what a successful \<^verbatim>\<open>auto_bind\<close> leaves in column \<open>i\<close>: the column as
  described by the driver's answer for ordinal \<open>i + 1\<close>, its name, and the column with its
  buffers allocated.
\<close>

definition described :: "'d native \<Rightarrow> 'd \<Rightarrow> nat \<Rightarrow> bound_column \<Rightarrow> bound_column" where
  "described drv d i col = describe_column i (snd (SQLDescribeCol drv d (int i + 1))) col"

definition described_name :: "'d native \<Rightarrow> 'd \<Rightarrow> nat \<Rightarrow> string" where
  "described_name drv d i = c_str (do_columnName (snd (SQLDescribeCol drv d (int i + 1))))"

definition bound_as ::
  "'d native \<Rightarrow> 'd \<Rightarrow> int \<Rightarrow> (nat \<Rightarrow> int list \<times> string) \<Rightarrow> nat \<Rightarrow> bound_column" where
  "bound_as drv d n uninit i = allocate_buffers n uninit i (described drv d i new_bound_column)"

section \<open>Database errors\<close>

text \<open>
  \<^verbatim>\<open>recent_error\<close> calls \<^verbatim>\<open>SQLGetDiagRec\<close> twice per record: without a message buffer
  to learn the length, then with the buffer. The driver function takes the record
  number, whether the buffer is passed, and the current contents of the output
  arguments, and answers with the return code and their new contents; it cannot resize
  the arrays. The locals \<^verbatim>\<open>nativeError\<close>, \<^verbatim>\<open>total_bytes\<close> and \<^verbatim>\<open>sqlState\<close> start
  indeterminate: their initial contents are the argument \<open>indet\<close>.
  \<^verbatim>\<open>SQL_MAX_MESSAGE_LENGTH\<close> is 512 in the ODBC header \<^verbatim>\<open>sqlext.h\<close>.
\<close>

definition SQL_MAX_MESSAGE_LENGTH :: nat where
  "SQL_MAX_MESSAGE_LENGTH = 512"

record diag_out =
  sqlState :: string
  nativeError :: int
  total_bytes :: int
  sql_message :: string

type_synonym get_diag_rec = "int \<Rightarrow> bool \<Rightarrow> diag_out \<Rightarrow> retcode \<times> diag_out"

text \<open>The cast \<^verbatim>\<open>(SQLSMALLINT)i\<close>.\<close>

definition to_short :: "int \<Rightarrow> int" where
  "to_short i = (i + 2 ^ 15) mod 2 ^ 16 - 2 ^ 15"

text \<open>\<^verbatim>\<open>std::vector::resize\<close>: new elements are zero.\<close>

definition resize :: "nat \<Rightarrow> string \<Rightarrow> string" where
  "resize n xs = take n xs @ replicate (n - length xs) (CHR 0x00)"

definition diag_call :: "get_diag_rec \<Rightarrow> int \<Rightarrow> bool \<Rightarrow> diag_out \<Rightarrow> retcode \<times> diag_out" where
  "diag_call drv i with_buffer out =
     (case drv (to_short i) with_buffer out of
        (rc, out1) \<Rightarrow>
          (rc, out1\<lparr>sqlState := overlay (sqlState out) (sqlState out1),
                    sql_message := (if with_buffer then overlay (sql_message out) (sql_message out1)
                                    else sql_message out)\<rparr>))"

text \<open>
  The \<^verbatim>\<open>do ... while\<close> loop. The flag of the result is \<open>False\<close> for the early
  \<^verbatim>\<open>return rvalue\<close> and \<open>True\<close> when the loop is left; \<open>msvc\<close> says whether \<^verbatim>\<open>_MSC_VER\<close>
  is defined (without it the loop body ends in \<^verbatim>\<open>break\<close>). A driver that never answers
  \<^verbatim>\<open>SQL_NO_DATA\<close> or a failure keeps the MSVC loop running: the result is then \<open>None\<close>.
\<close>

partial_function (option) recent_error_loop ::
  "bool \<Rightarrow> get_diag_rec \<Rightarrow> int \<Rightarrow> string \<Rightarrow> diag_out \<Rightarrow> (bool \<times> string \<times> diag_out) option" where
  "recent_error_loop msvc drv i Result out =
     (case diag_call drv i False out of
        (rc1, out1) \<Rightarrow>
          (case (if success rc1 \<and> total_bytes out1 > 0
                 then out1\<lparr>sql_message := resize (nat (total_bytes out1 + 1)) (sql_message out1)\<rparr>
                 else out1) of
             out2 \<Rightarrow>
               if rc1 = SQL_NO_DATA then Some (True, Result, out2)
               else (case diag_call drv i True out2 of
                       (rc2, out3) \<Rightarrow>
                         if \<not> success rc2 then Some (False, Result, out3)
                         else (case (if Result \<noteq> [] then Result @ '' '' else Result) @ sql_message out3 of
                                 Result1 \<Rightarrow>
                                   if \<not> msvc then Some (True, Result1, out3)
                                   else if rc2 \<noteq> SQL_NO_DATA
                                   then recent_error_loop msvc drv (i + 1) Result1 out3
                                   else Some (True, Result1, out3)))))"

definition nul_to_space :: "char \<Rightarrow> char" where
  "nul_to_space ch = (if ch = CHR 0x00 then CHR '' '' else ch)"

text \<open>
  \<open>recent_error msvc drv indet native state\<close> is the returned string together with the
  values of the reference arguments \<^verbatim>\<open>native\<close> and \<^verbatim>\<open>state\<close> after the call.
\<close>

definition recent_error ::
  "bool \<Rightarrow> get_diag_rec \<Rightarrow> diag_out \<Rightarrow> int \<Rightarrow> string \<Rightarrow> (string \<times> int \<times> string) option" where
  "recent_error msvc drv indet native state =
     (case recent_error_loop msvc drv 1 []
             (indet\<lparr>sqlState := alloc 6 (CHR 0x00) (sqlState indet),
                    sql_message := replicate SQL_MAX_MESSAGE_LENGTH (CHR 0x00)\<rparr>) of
        None \<Rightarrow> None
      | Some (False, Result, out) \<Rightarrow> Some (Result, native, state)
      | Some (True, Result, out) \<Rightarrow>
          Some (map nul_to_space (take 5 (sqlState out) @ '': '' @ Result),
                nativeError out, take 5 (sqlState out)))"

text \<open>
  The constructor \<^verbatim>\<open>DatabaseError(handle, handle_type, info)\<close>: \<^verbatim>\<open>what()\<close> of the
  base class is \<open>info\<close> as a C string.
\<close>

record DatabaseError_obj =
  err_message :: string
  err_nativeError :: int
  err_sqlState :: string

definition DatabaseError_ctor ::
  "bool \<Rightarrow> get_diag_rec \<Rightarrow> diag_out \<Rightarrow> string \<Rightarrow> DatabaseError_obj option" where
  "DatabaseError_ctor msvc drv indet info =
     (case recent_error msvc drv indet 0 ''00000'' of
        None \<Rightarrow> None
      | Some (status, native, state) \<Rightarrow>
          Some \<lparr>err_message = c_str info @ status, err_nativeError = native,
                err_sqlState = state\<rparr>)"

text \<open>
  A reference driver holding a list of diagnostic records, each a five-character
  SQLSTATE, a native code and a message text. It answers \<^verbatim>\<open>SQL_NO_DATA\<close> past the last
  record and leaves the outputs alone then; otherwise it stores the state, the code and
  the full length of the text, and, given a buffer, the text cut to the buffer with a
  terminating NUL.
\<close>

record diag_rec =
  dr_state :: string
  dr_native :: int
  dr_text :: string

definition diag_records :: "diag_rec list \<Rightarrow> get_diag_rec" where
  "diag_records recs i with_buffer out =
     (if i < 1 then (SQL_ERROR, out)
      else if nat i > length recs then (SQL_NO_DATA, out)
      else
        let rec = recs ! (nat i - 1); n = length (sql_message out);
            out1 = out\<lparr>sqlState := alloc 5 (CHR 0x00) (dr_state rec) @ [CHR 0x00],
                       nativeError := dr_native rec,
                       total_bytes := int (length (dr_text rec))\<rparr>
        in if with_buffer \<and> n > 0
           then (if length (dr_text rec) < n then SQL_SUCCESS else SQL_SUCCESS_WITH_INFO,
                 out1\<lparr>sql_message := take (n - 1) (dr_text rec) @ [CHR 0x00]\<rparr>)
           else (SQL_SUCCESS_WITH_INFO, out1))"

text \<open>The members of a column that describe it, as opposed to its buffers and stride.\<close>

definition same_description :: "bound_column \<Rightarrow> bound_column \<Rightarrow> bool" where
  "same_description a b \<longleftrightarrow>
     name a = name b \<and> column_ord a = column_ord b \<and> sqltype a = sqltype b \<and>
     sqlsize a = sqlsize b \<and> scale a = scale b \<and> ctype a = ctype b \<and> blob a = blob b"

section \<open>Examples\<close>

text \<open>A result with every data buffer replaced: \<open>p\<close> gives the new \<^verbatim>\<open>pdata_\<close> of each column.\<close>

definition with_pdata :: "(bound_column \<Rightarrow> string option) \<Rightarrow> 'd ResultImpl \<Rightarrow> 'd ResultImpl" where
  "with_pdata p r = r\<lparr>bound_columns := map (\<lambda>col. col\<lparr>pdata := p col\<rparr>) (bound_columns r)\<rparr>"

text \<open>
  A statement over three rows with the columns \<open>id\<close> (64-bit integer), \<open>name\<close> (text of
  at most 3 characters) and \<open>bio\<close> (text of unbounded size); the \<open>bio\<close> of the second row
  is null. The name buffers are as a driver leaves them: the name, a NUL, and whatever
  was there before.
\<close>

definition people_stmt :: table_stmt where
  "people_stmt =
     \<lparr>ts_columns =
        [\<lparr>do_columnName = ''id'' @ [CHR 0x00], do_sqltype = SQL_BIGINT, do_sqlsize = 19,
          do_scale = 0\<rparr>,
         \<lparr>do_columnName = ''name'' @ [CHR 0x00], do_sqltype = SQL_VARCHAR, do_sqlsize = 3,
          do_scale = 0\<rparr>,
         \<lparr>do_columnName = ''bio'' @ [CHR 0x00, CHR ''e''], do_sqltype = SQL_VARCHAR,
          do_sqlsize = 0, do_scale = 0\<rparr>],
      ts_table =
        [[(8, CHR 0x01 # replicate 7 (CHR 0x00)), (3, ''Ann''), (2, ''hi'')],
         [(8, CHR 0x02 # replicate 7 (CHR 0x00)), (2, ''Bo''), (- 1, [])],
         [(8, CHR 0x03 # replicate 7 (CHR 0x00)), (2, ''Cy''), (5, ''hello'')]],
      ts_rowset_size = 1, ts_cursor = BeforeStart\<rparr>"

text \<open>Initial contents of freshly allocated arrays, for the examples.\<close>

definition garbage :: "nat \<Rightarrow> int list \<times> string" where
  "garbage i = ([7, 7, 7], ''????????'')"

definition people_result :: "int \<Rightarrow> table_stmt ResultImpl" where
  "people_result B = fst (ResultImpl_ctor table_driver garbage people_stmt B)"

text \<open>
  Vocabulary for runs over the reference driver: the number of rows a rowset at cursor
  \<open>c\<close> delivers, whether a cursor stands on a rowset, and the summary of a result over
  statement \<open>d\<close> with rowset size \<open>B\<close> (cursor, rows fetched, offset, end flag, calls made).
\<close>

definition fetched :: "table_stmt \<Rightarrow> int \<Rightarrow> cursor \<Rightarrow> nat" where
  "fetched d B c =
     (case c of RowsetStart s \<Rightarrow> length (take (nat B) (drop (nat (s - 1)) (ts_table d))) | _ \<Rightarrow> 0)"

definition is_rowset :: "cursor \<Rightarrow> bool" where
  "is_rowset c = (case c of RowsetStart s \<Rightarrow> True | _ \<Rightarrow> False)"

definition table_state ::
  "table_stmt \<Rightarrow> int \<Rightarrow> cursor \<Rightarrow> nat \<Rightarrow> int \<Rightarrow> bool \<Rightarrow> (orientation \<times> int) list
     \<Rightarrow> table_stmt ResultImpl \<Rightarrow> bool" where
  "table_state d B c cnt pos e l r \<longleftrightarrow>
     bound_ok r \<and> stmt r = d\<lparr>ts_rowset_size := B, ts_cursor := c\<rparr> \<and> rowset_size r = B \<and>
     row_count r = cnt \<and> rowset_position r = pos \<and> at_end r = e \<and> fetch_log r = l"

text \<open>The example result after \<^verbatim>\<open>first()\<close> with rowset size 2, and, with rowset size 5, after \<^verbatim>\<open>first()\<close> and two calls of \<^verbatim>\<open>next()\<close>.\<close>

definition people_first :: "table_stmt ResultImpl" where
  "people_first = fst (first table_driver (people_result 2))"

text \<open>The same after one more \<^verbatim>\<open>next()\<close>: the cursor on the second row, whose \<open>bio\<close> is null.\<close>

definition people_second :: "table_stmt ResultImpl" where
  "people_second = fst (next table_driver people_first)"

definition people_mid_batch :: "table_stmt ResultImpl" where
  "people_mid_batch =
     fst (next table_driver (fst (next table_driver (fst (first table_driver (people_result 5))))))"

text \<open>A statement whose two columns have the same name.\<close>

definition twins_stmt :: table_stmt where
  "twins_stmt =
     \<lparr>ts_columns =
        [\<lparr>do_columnName = ''a'' @ [CHR 0x00], do_sqltype = SQL_BIGINT, do_sqlsize = 19,
          do_scale = 0\<rparr>,
         \<lparr>do_columnName = ''a'' @ [CHR 0x00], do_sqltype = SQL_VARCHAR, do_sqlsize = 3,
          do_scale = 0\<rparr>],
      ts_table = [], ts_rowset_size = 1, ts_cursor = BeforeStart\<rparr>"

definition twins_unbound :: "table_stmt ResultImpl" where
  "twins_unbound =
     \<lparr>stmt = twins_stmt, rowset_size = 1, row_count = 0, bound_columns = [],
      rowset_position = 0, bound_columns_by_name = Map.empty, at_end = False, fetch_log = []\<rparr>"

text \<open>Two stacked diagnostic records, and some initial contents of the locals of \<^verbatim>\<open>recent_error\<close>.\<close>

definition two_diag_records :: "diag_rec list" where
  "two_diag_records =
     [\<lparr>dr_state = ''42S02'', dr_native = 208, dr_text = ''no table''\<rparr>,
      \<lparr>dr_state = ''42000'', dr_native = 8180, dr_text = ''not prepared''\<rparr>]"

definition stack_junk :: diag_out where
  "stack_junk = \<lparr>sqlState = ''??????'', nativeError = 99, total_bytes = 77, sql_message = []\<rparr>"

section \<open>Buffers and the frame of a fetch\<close>

lemma length_overlay: "length (overlay old new) = length old"
  by (simp add: overlay_def)

lemma indicators_ok_before_move_column:
  "indicators_ok n col \<Longrightarrow> indicators_ok n (before_move_column n col)"
  by (auto simp: indicators_ok_def before_move_column_def release_bound_resources_def Let_def
      split: option.splits)

lemma bound_ok_before_move: "bound_ok r \<Longrightarrow> bound_ok (before_move r)"
  by (simp add: bound_ok_def before_move_def list_all_iff indicators_ok_before_move_column)

lemma indicators_ok_store_bufs:
  "list_all (indicators_ok n) cols \<Longrightarrow> list_all (indicators_ok n) (store_bufs cols bs)"
  by (induction cols bs rule: store_bufs.induct)
     (auto simp: indicators_ok_def length_overlay split: option.splits)

lemma length_store_bufs: "length (store_bufs cols bs) = length cols"
  by (induction cols bs rule: store_bufs.induct) auto

lemma store_bufs_description:
  "i < length cols \<Longrightarrow> same_description (store_bufs cols bs ! i) (cols ! i) \<and>
      clen (store_bufs cols bs ! i) = clen (cols ! i)"
proof (induction cols bs arbitrary: i rule: store_bufs.induct)
  case (3 c cs cb pd bs)
  then show ?case by (cases i) (auto simp: same_description_def)
qed (auto simp: same_description_def)

lemma native_fetch_frame:
  "native_fetch drv n ori r = (r', res) \<Longrightarrow>
     rowset_size r' = rowset_size r \<and> rowset_position r' = rowset_position r \<and>
     bound_columns_by_name r' = bound_columns_by_name r \<and>
     fetch_log r' = fetch_log r @ [(ori, n)] \<and>
     bound_columns r' = store_bufs (bound_columns r) (snd (snd (snd (SQLFetchScroll drv (stmt r) ori n (bound_columns r))))) \<and>
     (bound_ok r \<longrightarrow> bound_ok r')"
  by (auto simp: native_fetch_def Let_def bound_ok_def length_store_bufs indicators_ok_store_bufs
      split: prod.splits if_splits)

lemma before_move_fields:
  "stmt (before_move r) = stmt r" "rowset_size (before_move r) = rowset_size r"
  "row_count (before_move r) = row_count r" "rowset_position (before_move r) = rowset_position r"
  "bound_columns_by_name (before_move r) = bound_columns_by_name r"
  "at_end (before_move r) = at_end r" "fetch_log (before_move r) = fetch_log r"
  "length (bound_columns (before_move r)) = length (bound_columns r)"
  by (simp_all add: before_move_def)

lemma fetch_frame:
  "bound_ok r \<Longrightarrow> fetch drv n ori r = (r', res) \<Longrightarrow>
     rowset_size r' = rowset_size r \<and> rowset_position r' = rowset_position r \<and>
     bound_columns_by_name r' = bound_columns_by_name r \<and>
     fetch_log r' = fetch_log r @ [(ori, n)] \<and>
     length (bound_columns r') = length (bound_columns r) \<and> bound_ok r'"
  using native_fetch_frame[of drv n ori "before_move r" r' res] bound_ok_before_move[of r]
  by (simp add: fetch_def before_move_fields length_store_bufs)

lemma before_move_column_facts:
  "same_description (before_move_column n col) col"
  "cbdata (before_move_column n col) = map_option (\<lambda>cb. replicate (nat n) 0 @ drop (nat n) cb) (cbdata col)"
  "blob col \<Longrightarrow> pdata (before_move_column n col) = None"
  "\<not> blob col \<Longrightarrow> pdata (before_move_column n col) = pdata col \<and> clen (before_move_column n col) = clen col"
  by (auto simp: before_move_column_def release_bound_resources_def same_description_def Let_def)

text \<open>
  C5 (amended). \<^verbatim>\<open>fetch\<close> runs \<^verbatim>\<open>before_move()\<close> and then makes the native call on the
  result. \<^verbatim>\<open>before_move()\<close> sets the first \<^verbatim>\<open>rowset_size_\<close> indicators of every bound
  column to 0 and leaves the rest of the indicator array; of a variable-length column it
  releases the data buffer; the data buffer and stride of a fixed-length column are left
  as they are, not cleared. It changes no other member. Across the whole \<^verbatim>\<open>fetch\<close> the
  rowset size, the offset, the name map, the number of columns and the description of
  every column are unchanged.
\<close>

theorem fetch_clears_indicators:
  assumes "bound_ok r"
  shows "fetch drv n ori r = native_fetch drv n ori (before_move r) \<and>
         stmt (before_move r) = stmt r \<and> rowset_size (before_move r) = rowset_size r \<and>
         row_count (before_move r) = row_count r \<and> rowset_position (before_move r) = rowset_position r \<and>
         bound_columns_by_name (before_move r) = bound_columns_by_name r \<and>
         at_end (before_move r) = at_end r \<and> fetch_log (before_move r) = fetch_log r \<and>
         length (bound_columns (before_move r)) = length (bound_columns r) \<and>
         (\<forall>i<length (bound_columns r).
            let col = bound_columns r ! i; col' = bound_columns (before_move r) ! i
            in same_description col' col \<and>
               cbdata col' = map_option (\<lambda>cb. replicate (nat (rowset_size r)) 0 @ drop (nat (rowset_size r)) cb) (cbdata col) \<and>
               (if blob col then pdata col' = None else pdata col' = pdata col \<and> clen col' = clen col)) \<and>
         (let r' = fst (fetch drv n ori r)
          in rowset_size r' = rowset_size r \<and> rowset_position r' = rowset_position r \<and>
             bound_columns_by_name r' = bound_columns_by_name r \<and>
             length (bound_columns r') = length (bound_columns r) \<and>
             (\<forall>i<length (bound_columns r). same_description (bound_columns r' ! i) (bound_columns r ! i)))"
proof -
  have a: "fetch drv n ori r = native_fetch drv n ori (before_move r)"
    using assms by (simp add: fetch_def)
  have b: "\<forall>i<length (bound_columns r).
            let col = bound_columns r ! i; col' = bound_columns (before_move r) ! i
            in same_description col' col \<and>
               cbdata col' = map_option (\<lambda>cb. replicate (nat (rowset_size r)) 0 @ drop (nat (rowset_size r)) cb) (cbdata col) \<and>
               (if blob col then pdata col' = None else pdata col' = pdata col \<and> clen col' = clen col)"
    by (simp add: before_move_def Let_def before_move_column_facts)
  obtain r' res where f: "fetch drv n ori r = (r', res)" by fastforce
  from fetch_frame[OF assms f] have c: "rowset_size r' = rowset_size r" "rowset_position r' = rowset_position r"
    "bound_columns_by_name r' = bound_columns_by_name r" "length (bound_columns r') = length (bound_columns r)"
    by auto
  from f a have nf: "native_fetch drv n ori (before_move r) = (r', res)" by simp
  have d: "\<forall>i<length (bound_columns r). same_description (bound_columns r' ! i) (bound_columns r ! i)"
  proof (intro allI impI)
    fix i assume i: "i < length (bound_columns r)"
    from native_fetch_frame[OF nf] obtain bs where
      "bound_columns r' = store_bufs (bound_columns (before_move r)) bs" by auto
    with i store_bufs_description[of i "bound_columns (before_move r)" bs]
    have "same_description (bound_columns r' ! i) (bound_columns (before_move r) ! i)"
      by (simp add: before_move_fields)
    moreover from b i have "same_description (bound_columns (before_move r) ! i) (bound_columns r ! i)"
      by (simp add: Let_def)
    ultimately show "same_description (bound_columns r' ! i) (bound_columns r ! i)"
      by (simp add: same_description_def)
  qed
  from nf have e: "fst (native_fetch drv n ori (before_move r)) = r'" by simp
  show ?thesis
    using b c d by (simp add: a e before_move_fields Let_def)
qed

section \<open>Navigation calls\<close>

text \<open>
  C4 (amended). \<^verbatim>\<open>first\<close>, \<^verbatim>\<open>last\<close> and \<^verbatim>\<open>move(row)\<close> always set the offset to 0 and
  make one \<^verbatim>\<open>SQLFetchScroll\<close> call with \<^verbatim>\<open>SQL_FETCH_FIRST\<close>, \<^verbatim>\<open>SQL_FETCH_LAST\<close> and
  \<^verbatim>\<open>SQL_FETCH_ABSOLUTE\<close> (with the row as offset). \<^verbatim>\<open>prior\<close> steps back inside the batch
  in memory, with no native call, when the last fetch delivered rows and the offset is at
  least 1; otherwise it sets the offset to 0 and makes one \<^verbatim>\<open>SQL_FETCH_PRIOR\<close> call.
\<close>

theorem navigation_fetches:
  assumes "bound_ok r"
  shows "(let r' = fst (first drv r)
          in rowset_position r' = 0 \<and> fetch_log r' = fetch_log r @ [(SQL_FETCH_FIRST, 0)]) \<and>
         (let r' = fst (last_row drv r)
          in rowset_position r' = 0 \<and> fetch_log r' = fetch_log r @ [(SQL_FETCH_LAST, 0)]) \<and>
         (let r' = fst (move drv row r)
          in rowset_position r' = 0 \<and> fetch_log r' = fetch_log r @ [(SQL_FETCH_ABSOLUTE, row)]) \<and>
         (if rows r \<noteq> 0 \<and> 1 \<le> rowset_position r
          then prior drv r = (r\<lparr>rowset_position := rowset_position r - 1\<rparr>, Inr True)
          else let r' = fst (prior drv r)
               in rowset_position r' = 0 \<and> fetch_log r' = fetch_log r @ [(SQL_FETCH_PRIOR, 0)])"
proof -
  have ok: "bound_ok (r\<lparr>rowset_position := 0\<rparr>)"
    using assms by (simp add: bound_ok_def)
  have f: "\<And>n ori. let r' = fst (fetch drv n ori (r\<lparr>rowset_position := 0\<rparr>))
                  in rowset_position r' = 0 \<and> fetch_log r' = fetch_log r @ [(ori, n)]"
  proof -
    fix n ori
    obtain r' res where e: "fetch drv n ori (r\<lparr>rowset_position := 0\<rparr>) = (r', res)" by fastforce
    from fetch_frame[OF ok e] e show "let r' = fst (fetch drv n ori (r\<lparr>rowset_position := 0\<rparr>))
                  in rowset_position r' = 0 \<and> fetch_log r' = fetch_log r @ [(ori, n)]"
      by simp
  qed
  show ?thesis
    using f[of 0 SQL_FETCH_FIRST] f[of 0 SQL_FETCH_LAST] f[of row SQL_FETCH_ABSOLUTE] f[of 0 SQL_FETCH_PRIOR]
    by (simp add: first_def last_row_def move_def prior_def Let_def)
qed


section \<open>Null cells and rows that are not there\<close>

lemma isNull_null_cell:
  assumes "0 \<le> c" "c < bound_columns_size r" "0 \<le> rowset_position r" "rowset_position r < rows r"
    and "cbdata (bound_columns r ! nat c) = Some cb" "rowset_position r < int (length cb)"
  shows "isNull r c = Inr (cb ! nat (rowset_position r) = SQL_NULL_DATA)"
  using assms by (simp add: isNull_def)

lemma isNull_with_pdata: "isNull (with_pdata p r) c = isNull r c"
  by (auto simp: isNull_def with_pdata_def bound_columns_size_def rows_def split: option.splits)

text \<open>
  C2. On a bound column \<open>c\<close> and a current row (offset within the rows fetched) whose
  indicator is \<^verbatim>\<open>SQL_NULL_DATA\<close>, \<^verbatim>\<open>get<T>(c)\<close> and \<^verbatim>\<open>getRef<T>(c)\<close> raise
  \<^verbatim>\<open>NullAccessError\<close>, and \<^verbatim>\<open>get<T>(c, fallback)\<close> returns the fallback. The data buffer is
  not read: the outcome is the same for every \<^verbatim>\<open>get_ref_impl\<close> and for every content of
  the data buffers, a null data pointer included.
\<close>

theorem null_cell_access:
  assumes "0 \<le> c" "c < bound_columns_size r" "0 \<le> rowset_position r" "rowset_position r < rows r"
    and "cbdata (bound_columns r ! nat c) = Some cb" "rowset_position r < int (length cb)"
    and "cb ! nat (rowset_position r) = SQL_NULL_DATA"
  shows "get impl r c = Inl NullAccessError \<and> getRef impl r c = Inl NullAccessError \<and>
         get_fallback impl r c fallback = Inr fallback \<and>
         getRef_fallback impl r c fallback = Inr fallback \<and>
         get_fallback impl' (with_pdata p r) c fallback = Inr fallback"
proof -
  have n: "isNull r c = Inr True"
    using isNull_null_cell[OF assms(1-6)] assms(7) by simp
  have s: "\<not> c \<ge> bound_columns_size r" "\<not> c \<ge> bound_columns_size (with_pdata p r)"
    using assms(2) by (simp_all add: bound_columns_size_def with_pdata_def)
  show ?thesis
    using n s by (simp add: get_def getRef_def get_fallback_def getRef_fallback_def isNull_with_pdata)
qed

lemma auto_bind_position:
  "auto_bind drv uninit r = (r', res) \<Longrightarrow>
     row_count r' = row_count r \<and> rowset_position r' = rowset_position r"
  by (auto simp: auto_bind_def Let_def split: if_splits prod.splits sum.splits)

lemma ResultImpl_ctor_unpositioned:
  "ResultImpl_ctor drv uninit d B = (r, res) \<Longrightarrow> row_count r = 0 \<and> rowset_position r = 0"
  by (auto simp: ResultImpl_ctor_def Let_def split: if_splits prod.splits dest!: auto_bind_position)

text \<open>
  C10. When the offset within the batch is at or past the number of rows fetched, and
  in particular on a result as its constructor leaves it (no row fetched yet), \<^verbatim>\<open>isNull\<close>,
  \<^verbatim>\<open>get\<close> and \<^verbatim>\<open>getRef\<close>, with or without fallback, raise \<^verbatim>\<open>IndexRangeError\<close> for every
  ordinal, within the column count or beyond it. Nothing is assumed of the buffers, which
  may be null: none is read.
\<close>

theorem access_without_current_row:
  assumes "0 \<le> c"
    and "rows r \<le> rowset_position r \<or> ResultImpl_ctor drv uninit d B = (r, res)"
  shows "isNull r c = Inl IndexRangeError \<and>
         getRef impl r c = Inl IndexRangeError \<and>
         getRef_fallback impl r c fallback = Inl IndexRangeError \<and>
         get impl r c = Inl IndexRangeError \<and>
         get_fallback impl r c fallback = Inl IndexRangeError"
proof -
  from assms(2) have "rows r \<le> rowset_position r"
    by (auto dest!: ResultImpl_ctor_unpositioned simp: rows_def to_long_def)
  with assms(1) have "isNull r c = Inl IndexRangeError"
    by (simp add: isNull_def)
  then show ?thesis
    by (simp add: getRef_def getRef_fallback_def get_def get_fallback_def)
qed


section \<open>Numeric extraction\<close>

lemma getRef_not_null:
  assumes "0 \<le> c" "c < bound_columns_size r" "0 \<le> rowset_position r" "rowset_position r < rows r"
    and "cbdata (bound_columns r ! nat c) = Some cb" "rowset_position r < int (length cb)"
    and "cb ! nat (rowset_position r) \<noteq> SQL_NULL_DATA"
  shows "get impl r c = impl r c"
  using assms by (simp add: get_def getRef_def isNull_def)

text \<open>
  C8 (amended). On a current, non-null cell, the numeric \<^verbatim>\<open>get<T>\<close> raises
  \<^verbatim>\<open>TypeIncompatipleError\<close> for a column bound as \<^verbatim>\<open>SQL_C_WCHAR\<close> (and as binary, GUID,
  date, time or timestamp). For a column bound as \<^verbatim>\<open>SQL_C_CHAR\<close> it does not raise: the
  generic template has a \<^verbatim>\<open>case SQL_C_CHAR\<close> and returns the first byte of the row's slot,
  converted to \<open>T\<close>; with no data buffer (a variable-length column) the read is undefined.
\<close>

theorem numeric_get_of_text_column:
  assumes "0 \<le> c" "c < bound_columns_size r" "0 \<le> rowset_position r" "rowset_position r < rows r"
    and "cbdata (bound_columns r ! nat c) = Some cb" "rowset_position r < int (length cb)"
    and "cb ! nat (rowset_position r) \<noteq> SQL_NULL_DATA"
  shows "(ctype (bound_columns r ! nat c) \<in> {SQL_C_WCHAR, SQL_C_BINARY, SQL_C_GUID, SQL_C_DATE, SQL_C_TIME, SQL_C_TIMESTAMP}
            \<longrightarrow> get get_ref_impl r c = Inl TypeIncompatipleError) \<and>
         (ctype (bound_columns r ! nat c) = SQL_C_CHAR \<longrightarrow>
            (case pdata (bound_columns r ! nat c) of
               None \<Rightarrow> get get_ref_impl r c = Inl UndefinedBehaviour
             | Some buf \<Rightarrow>
                 rowset_position r * int (clen (bound_columns r ! nat c)) < int (length buf) \<longrightarrow>
                 get get_ref_impl r c =
                   Inr (c_char, [buf ! nat (rowset_position r * int (clen (bound_columns r ! nat c)))])))"
proof -
  have g: "get get_ref_impl r c = get_ref_impl r c"
    by (rule getRef_not_null[OF assms])
  have t0: "\<And>(buf :: string) k. k < length buf \<Longrightarrow> take (Suc 0) (drop k buf) = [buf ! k]"
    by (metis Cons_nth_drop_Suc take0 take_Suc_Cons)
  have t: "\<And>(buf :: string) k. 0 \<le> k \<Longrightarrow> k < int (length buf) \<Longrightarrow> take (Suc 0) (drop (nat k) buf) = [buf ! nat k]"
    by (rule t0) linarith
  have p: "0 \<le> rowset_position r * int (clen (bound_columns r ! nat c))"
    using assms(3) by simp
  show ?thesis
    using assms(1-3) p unfolding g
    by (auto simp: get_ref_impl_def deref_def Let_def t split: option.splits)
qed

section \<open>What auto-binding builds\<close>

lemma bind_columns_nth:
  "bind_columns drv d n uninit is cols = (cols', Inr u) \<Longrightarrow> distinct is \<Longrightarrow>
   \<forall>i\<in>set is. i < length cols \<Longrightarrow>
   length cols' = length cols \<and>
   (\<forall>j<length cols. cols' ! j = (if j \<in> set is then allocate_buffers n uninit j (cols ! j) else cols ! j))"
proof (induction "is" arbitrary: cols)
  case Nil
  then show ?case by simp
next
  case (Cons i "is")
  let ?col = "allocate_buffers n uninit i (cols ! i)"
  from Cons.prems(1) have rec: "bind_columns drv d n uninit is (cols[i := ?col]) = (cols', Inr u)"
    by (simp add: Let_def split: if_splits)
  from Cons.prems have "distinct is" "\<forall>j\<in>set is. j < length (cols[i := ?col])" "i \<notin> set is" "i < length cols"
    by auto
  with Cons.IH[OF rec] show ?case
    by (auto simp: nth_list_update)
qed

lemma bind_columns_nonneg:
  "bind_columns drv d n uninit is cols = (cols', Inr u) \<Longrightarrow> is \<noteq> [] \<Longrightarrow> 0 \<le> n"
  by (cases "is") (auto split: if_splits)

lemma describe_columns_nth:
  "describe_columns drv d is cols names = ((cols', names'), Inr u) \<Longrightarrow> distinct is \<Longrightarrow>
   \<forall>i\<in>set is. i < length cols \<Longrightarrow>
   length cols' = length cols \<and>
   (\<forall>j<length cols. cols' ! j = (if j \<in> set is then described drv d j (cols ! j) else cols ! j))"
proof (induction "is" arbitrary: cols names)
  case Nil
  then show ?case by simp
next
  case (Cons i "is")
  let ?col = "described drv d i (cols ! i)"
  from Cons.prems(1) have rec: "describe_columns drv d is (cols[i := ?col]) (names(name ?col \<mapsto> i)) = ((cols', names'), Inr u)"
    by (simp add: Let_def described_def split: if_splits prod.splits)
  from Cons.prems have "distinct is" "\<forall>j\<in>set is. j < length (cols[i := ?col])" "i \<notin> set is" "i < length cols"
    by auto
  with Cons.IH[OF rec] show ?case
    by (auto simp: nth_list_update)
qed

lemma name_bind_type: "name (bind_type t b col) = name col"
  by (cases t) (simp_all add: bind_text_def Let_def)

lemma name_describe_column: "name (describe_column i out col) = c_str (do_columnName out)"
  by (simp add: describe_column_def Let_def name_bind_type)

lemma find_append_case:
  "find P (xs @ ys) = (case find P xs of None \<Rightarrow> find P ys | Some x \<Rightarrow> Some x)"
  by (induction xs) auto

lemma describe_columns_names:
  "describe_columns drv d is cols names = ((cols', names'), Inr u) \<Longrightarrow>
   names' s = (case find (\<lambda>i. described_name drv d i = s) (rev is) of Some i \<Rightarrow> Some i | None \<Rightarrow> names s)"
proof (induction "is" arbitrary: cols names)
  case Nil
  then show ?case by simp
next
  case (Cons i "is")
  let ?col = "described drv d i (cols ! i)"
  from Cons.prems(1) have rec: "describe_columns drv d is (cols[i := ?col]) (names(name ?col \<mapsto> i)) = ((cols', names'), Inr u)"
    by (simp add: Let_def described_def split: if_splits prod.splits)
  have nm: "name ?col = described_name drv d i"
    by (simp add: described_def described_name_def name_describe_column)
  show ?case
    using Cons.IH[OF rec] by (auto simp: nm find_append_case split: option.splits)
qed


lemma find_rev_upt_last:
  "i < n \<Longrightarrow> P i \<Longrightarrow> \<forall>j. i < j \<and> j < n \<longrightarrow> \<not> P j \<Longrightarrow> find P (rev [0..<n]) = Some i"
proof (induction n)
  case 0
  then show ?case by simp
next
  case (Suc n)
  show ?case
  proof (cases "i = n")
    case True
    with Suc.prems show ?thesis by simp
  next
    case False
    with Suc.prems have "i < n" "\<not> P n" "\<forall>j. i < j \<and> j < n \<longrightarrow> \<not> P j" by auto
    with Suc.IH Suc.prems(2) show ?thesis by simp
  qed
qed

lemma name_allocate_buffers: "name (allocate_buffers n uninit i col) = name col"
  and column_ord_allocate_buffers: "column_ord (allocate_buffers n uninit i col) = column_ord col"
  by (simp_all add: allocate_buffers_def Let_def)

lemma column_ord_bind_type: "column_ord (bind_type t b col) = column_ord col"
  by (cases t) (simp_all add: bind_text_def Let_def)

lemma column_ord_describe_column: "column_ord (describe_column i out col) = int i"
  by (simp add: describe_column_def Let_def column_ord_bind_type)

lemma auto_bind_success:
  assumes "auto_bind drv uninit r = (r', Inr u)"
  obtains rc k where "SQLNumResultCols drv (stmt r) = (rc, k)" "success rc"
    "length (bound_columns r') = (if k < 1 then 0 else nat k)"
    "\<forall>j<length (bound_columns r'). bound_columns r' ! j = bound_as drv (stmt r) (rowset_size r) uninit j"
    "\<forall>s. bound_columns_by_name r' s = find (\<lambda>i. described_name drv (stmt r) i = s) (rev [0..<length (bound_columns r')])"
    "bound_columns r' \<noteq> [] \<longrightarrow> 0 \<le> rowset_size r"
    "stmt r' = stmt r" "rowset_size r' = rowset_size r" "row_count r' = row_count r"
    "rowset_position r' = rowset_position r" "at_end r' = at_end r" "fetch_log r' = fetch_log r"
proof -
  obtain rc k where nrc: "SQLNumResultCols drv (stmt r) = (rc, k)" by fastforce
  from assms nrc have ok: "bound_ok r" "success rc"
    by (auto simp: auto_bind_def Let_def split: if_splits)
  show thesis
  proof (cases "k < 1")
    case True
    with assms nrc ok have "r' = r\<lparr>bound_columns := [], bound_columns_by_name := Map.empty\<rparr>"
      by (auto simp: auto_bind_def Let_def)
    with True nrc ok show ?thesis by (intro that[of rc k]) auto
  next
    case False
    from assms nrc ok False obtain cols names cols1 where
      d: "describe_columns drv (stmt r) [0..<nat k] (replicate (nat k) new_bound_column) Map.empty = ((cols, names), Inr ())"
      and b: "bind_columns drv (stmt r) (rowset_size r) uninit [0..<nat k] cols = (cols1, Inr u)"
      and r': "r' = r\<lparr>bound_columns := cols1, bound_columns_by_name := names\<rparr>"
      by (auto simp: auto_bind_def Let_def split: prod.splits sum.splits)
    from describe_columns_nth[OF d] have dn: "length cols = nat k"
      "\<forall>j<nat k. cols ! j = described drv (stmt r) j new_bound_column"
      by auto
    from bind_columns_nth[OF b] dn have bn: "length cols1 = nat k"
      "\<forall>j<nat k. cols1 ! j = bound_as drv (stmt r) (rowset_size r) uninit j"
      by (auto simp: bound_as_def)
    from describe_columns_names[OF d] have nm:
      "\<forall>s. names s = find (\<lambda>i. described_name drv (stmt r) i = s) (rev [0..<nat k])"
      by (auto split: option.splits)
    from bind_columns_nonneg[OF b] False have "0 \<le> rowset_size r" by auto
    with False nrc ok r' bn nm show ?thesis by (intro that[of rc k]) auto
  qed
qed

section \<open>Runs over the reference driver\<close>

lemma table_driver_sel:
  "SQLSetStmtAttr_ROW_ARRAY_SIZE table_driver d n =
     (if n < 1 then (d, SQL_ERROR) else (d\<lparr>ts_rowset_size := n\<rparr>, SQL_SUCCESS))"
  "SQLSetStmtAttr_ROWS_FETCHED_PTR table_driver d = (d, SQL_SUCCESS)"
  "SQLNumResultCols table_driver d = (SQL_SUCCESS, int (length (ts_columns d)))"
  "SQLDescribeCol table_driver d i =
     (if 1 \<le> i \<and> i \<le> int (length (ts_columns d))
      then (SQL_SUCCESS, ts_columns d ! nat (i - 1))
      else (SQL_ERROR, \<lparr>do_columnName = [], do_sqltype = SQL_OTHER 0, do_sqlsize = 0, do_scale = 0\<rparr>))"
  "SQLBindCol table_driver d i ct has_buffer len =
     (if 1 \<le> i \<and> i \<le> int (length (ts_columns d)) then SQL_SUCCESS else SQL_ERROR)"
  "SQLFetchScroll table_driver = table_fetch"
  "SQLGetStmtAttr_ROW_NUMBER table_driver d =
     (case ts_cursor d of RowsetStart s \<Rightarrow> (SQL_SUCCESS, nat s) | _ \<Rightarrow> (SQL_SUCCESS, 0))"
  by (simp_all add: table_driver_def)

lemma length_alloc: "length (alloc n pad xs) = n"
  by (simp add: alloc_def)

lemma auto_bind_bound_ok:
  assumes "auto_bind drv uninit r = (r', Inr u)"
  shows "bound_ok r'"
proof -
  from assms obtain rc :: retcode and k :: int where
    cols: "\<forall>j<length (bound_columns r'). bound_columns r' ! j = bound_as drv (stmt r) (rowset_size r) uninit j"
    and sz: "rowset_size r' = rowset_size r"
    by (rule auto_bind_success)
  have "indicators_ok (rowset_size r) (bound_as drv (stmt r) (rowset_size r) uninit j)" for j
    by (simp add: indicators_ok_def bound_as_def allocate_buffers_def Let_def length_alloc)
  with cols sz show ?thesis
    by (simp add: bound_ok_def list_all_length)
qed

lemma ResultImpl_ctor_table:
  assumes "ResultImpl_ctor table_driver uninit d B = (r, Inr u)"
  shows "1 \<le> B" "stmt r = d\<lparr>ts_rowset_size := B\<rparr>" "rowset_size r = B" "row_count r = 0"
    "rowset_position r = 0" "fetch_log r = []" "at_end r = False" "bound_ok r"
proof -
  let ?r0 = "\<lparr>stmt = d\<lparr>ts_rowset_size := B\<rparr>, rowset_size = B, row_count = 0, bound_columns = [],
               rowset_position = 0, bound_columns_by_name = Map.empty, at_end = False,
               fetch_log = []\<rparr>"
  from assms have B: "1 \<le> B" and ab: "auto_bind table_driver uninit ?r0 = (r, Inr u)"
    by (auto simp: ResultImpl_ctor_def table_driver_sel success_def Let_def split: if_splits)
  show "1 \<le> B" by (rule B)
  from ab show "bound_ok r" by (rule auto_bind_bound_ok)
  from ab show "stmt r = d\<lparr>ts_rowset_size := B\<rparr>" "rowset_size r = B" "row_count r = 0"
    "rowset_position r = 0" "fetch_log r = []" "at_end r = False"
    by (auto elim!: auto_bind_success)
qed

lemma fetch_table:
  assumes "bound_ok r" "fetch table_driver n ori r = (r', res)"
  defines "c \<equiv> scroll ori n (ts_rowset_size (stmt r)) (int (length (ts_table (stmt r)))) (ts_cursor (stmt r))"
  shows "stmt r' = (stmt r)\<lparr>ts_cursor := c\<rparr>"
    and "res = Inr (case c of RowsetStart s \<Rightarrow> True | _ \<Rightarrow> False)"
    and "row_count r' = (case c of RowsetStart s \<Rightarrow>
            length (take (nat (ts_rowset_size (stmt r))) (drop (nat (s - 1)) (ts_table (stmt r)))) | _ \<Rightarrow> 0)"
    and "at_end r' = (at_end r \<or> (case c of RowsetStart s \<Rightarrow> False | _ \<Rightarrow> True))"
  using assms(1,2) unfolding c_def
  by (auto simp: fetch_def native_fetch_def table_driver_sel table_fetch_def Let_def before_move_def success_def
      split: cursor.splits prod.splits if_splits)

lemma to_long_small: "n < 2 ^ 63 \<Longrightarrow> to_long n = int n"
  by (simp add: to_long_def Let_def)

lemma to_ulong_small: "0 \<le> i \<Longrightarrow> i < 2 ^ 64 \<Longrightarrow> to_ulong i = nat i"
  by (simp add: to_ulong_def)

lemma next_times_in_batch:
  "rows r = rowset_size r \<Longrightarrow> 0 \<le> rowset_position r \<Longrightarrow>
   rowset_position r + int k < rowset_size r \<Longrightarrow>
   next_times drv k r = (r\<lparr>rowset_position := rowset_position r + int k\<rparr>, replicate k (Inr True))"
proof (induction k arbitrary: r)
  case 0
  then show ?case by simp
next
  case (Suc k)
  let ?r1 = "r\<lparr>rowset_position := rowset_position r + 1\<rparr>"
  from Suc.prems have n: "next drv r = (?r1, Inr True)"
    by (simp add: next_def)
  from Suc.prems have "rows ?r1 = rowset_size ?r1" "0 \<le> rowset_position ?r1"
    "rowset_position ?r1 + int k < rowset_size ?r1"
    by (simp_all add: rows_def)
  from Suc.IH[OF this] n show ?case
    by (simp add: add.assoc)
qed

lemma first_table:
  assumes c: "ResultImpl_ctor table_driver uninit d B = (r, Inr u)"
    and N: "B < int (length (ts_table d))"
    and f: "first table_driver r = (r1, res1)"
  shows "res1 = Inr True" "stmt r1 = d\<lparr>ts_rowset_size := B, ts_cursor := RowsetStart 1\<rparr>"
    "row_count r1 = nat B" "rowset_size r1 = B" "rowset_position r1 = 0"
    "fetch_log r1 = [(SQL_FETCH_FIRST, 0)]" "bound_ok r1" "at_end r1 = False"
    "length (bound_columns r1) = length (bound_columns r)"
proof -
  note k = ResultImpl_ctor_table[OF c]
  let ?r0 = "r\<lparr>rowset_position := 0\<rparr>"
  have ok: "bound_ok ?r0" using k(8) by (simp add: bound_ok_def)
  from f have f0: "fetch table_driver 0 SQL_FETCH_FIRST ?r0 = (r1, res1)"
    by (simp add: first_def)
  have sc: "scroll SQL_FETCH_FIRST 0 (ts_rowset_size (stmt ?r0)) (int (length (ts_table (stmt ?r0))))
              (ts_cursor (stmt ?r0)) = RowsetStart 1"
    using k(1,2) N by (auto simp: place_def)
  from fetch_table[OF ok f0] show "res1 = Inr True"
    "stmt r1 = d\<lparr>ts_rowset_size := B, ts_cursor := RowsetStart 1\<rparr>" "row_count r1 = nat B"
    "at_end r1 = False"
    unfolding sc using k N by simp_all
  from fetch_frame[OF ok f0] k show "rowset_size r1 = B" "rowset_position r1 = 0"
    "fetch_log r1 = [(SQL_FETCH_FIRST, 0)]" "bound_ok r1"
    "length (bound_columns r1) = length (bound_columns r)"
    by simp_all
qed

lemma store_bufs_cbdata:
  "j < length cols \<Longrightarrow> j < length bs \<Longrightarrow>
   cbdata (store_bufs cols bs ! j) = map_option (\<lambda>old. overlay old (fst (bs ! j))) (cbdata (cols ! j))"
proof (induction cols bs arbitrary: j rule: store_bufs.induct)
  case (3 c cs cb pd bs)
  then show ?case by (cases j) auto
qed auto

lemma ResultImpl_ctor_indicators:
  assumes "ResultImpl_ctor drv uninit d B = (r, Inr u)" "j < length (bound_columns r)"
  shows "\<exists>xs. cbdata (bound_columns r ! j) = Some xs \<and> length xs = nat B"
proof -
  from assms(1) obtain r0 where ab: "auto_bind drv uninit r0 = (r, Inr u)" and sz: "rowset_size r0 = B"
    by (auto simp: ResultImpl_ctor_def Let_def split: prod.splits if_splits)
  from ab obtain rc :: retcode and k :: int where
    cols: "\<forall>j<length (bound_columns r). bound_columns r ! j = bound_as drv (stmt r0) (rowset_size r0) uninit j"
    by (rule auto_bind_success)
  have "cbdata (bound_as drv (stmt r0) B uninit j) = Some (alloc (nat B) 0 (fst (uninit j)))"
    by (simp add: bound_as_def allocate_buffers_def Let_def)
  with cols assms(2) sz show ?thesis
    by (simp add: length_alloc)
qed

lemma first_batch_indicators:
  assumes c: "ResultImpl_ctor table_driver uninit d B = (r, Inr u)"
    and N: "B < int (length (ts_table d))"
    and f: "first table_driver r = (r1, res1)"
    and j: "j < length (bound_columns r)"
  shows "cbdata (bound_columns r1 ! j) =
           Some (map (\<lambda>row. fst (cell_at row j)) (take (nat B) (ts_table d)))"
proof -
  note k = ResultImpl_ctor_table[OF c]
  let ?r0 = "before_move (r\<lparr>rowset_position := 0\<rparr>)"
  let ?rws = "take (nat B) (ts_table d)"
  from ResultImpl_ctor_indicators[OF c j] obtain xs where
    xs: "cbdata (bound_columns r ! j) = Some xs" "length xs = nat B"
    by blast
  have ok: "bound_ok (r\<lparr>rowset_position := 0\<rparr>)" using k(8) by (simp add: bound_ok_def)
  from f ok have nf: "native_fetch table_driver 0 SQL_FETCH_FIRST ?r0 = (r1, res1)"
    by (simp add: first_def fetch_def)
  have tf: "snd (snd (snd (table_fetch (stmt ?r0) SQL_FETCH_FIRST 0 (bound_columns ?r0)))) =
      map (\<lambda>i. column_image ?rws i (bound_columns ?r0 ! i)) [0..<length (bound_columns ?r0)]"
    using k(1,2) N by (auto simp: table_fetch_def Let_def place_def before_move_fields)
  from native_fetch_frame[OF nf] have
    cols1: "bound_columns r1 = store_bufs (bound_columns ?r0)
        (map (\<lambda>i. column_image ?rws i (bound_columns ?r0 ! i)) [0..<length (bound_columns ?r0)])"
    by (simp add: table_driver_sel tf)
  have j0: "j < length (bound_columns ?r0)" using j by (simp add: before_move_def)
  have cb0: "cbdata (bound_columns ?r0 ! j) = Some (replicate (nat B) 0)"
    using j xs k(3) by (simp add: before_move_def before_move_column_facts)
  have len: "length ?rws = nat B" using N k(1) by simp
  show ?thesis
    unfolding cols1 using j0 cb0 len
    by (simp add: store_bufs_cbdata column_image_def overlay_def)
qed

text \<open>
  C1. Over the reference driver, for a result created with rowset size \<open>B\<close> on a table
  of more than \<open>B\<close> rows: \<^verbatim>\<open>first()\<close> succeeds with one \<^verbatim>\<open>SQLFetchScroll\<close> call; for
  every \<open>k < B\<close>, after \<open>k\<close> calls of \<^verbatim>\<open>next()\<close> every call has returned true, the cursor is
  on row \<open>k\<close> (offset \<open>k\<close>, \<^verbatim>\<open>position()\<close> \<open>= k + 1\<close>), that first call is still the
  only native fetch, and \<^verbatim>\<open>isNull\<close> of every column answers from the indicator of row \<open>k\<close>
  of the table; the next call of \<^verbatim>\<open>next()\<close> after row \<open>B - 1\<close> makes exactly one more
  fetch (\<^verbatim>\<open>SQL_FETCH_NEXT\<close>) and lands on row \<open>B\<close>; and \<^verbatim>\<open>skip(B)\<close> called right after
  \<^verbatim>\<open>first()\<close> lands on row \<open>B\<close> as well.
\<close>

theorem batch_boundary:
  assumes c: "ResultImpl_ctor table_driver uninit d B = (r, Inr u)"
    and N: "B < int (length (ts_table d))" and small: "B < 2 ^ 63"
    and f: "first table_driver r = (r1, res1)"
  shows "res1 = Inr True \<and>
         (\<forall>k<nat B. case next_times table_driver k r1 of
            (rk, ress) \<Rightarrow>
              ress = replicate k (Inr True) \<and> fetch_log rk = [(SQL_FETCH_FIRST, 0)] \<and>
              rowset_position rk = int k \<and> position table_driver rk = Inr (Suc k) \<and>
              (\<forall>j<length (bound_columns r).
                 isNull rk (int j) = Inr (fst (cell_at (ts_table d ! k) j) = SQL_NULL_DATA))) \<and>
         (case next_times table_driver (nat B - 1) r1 of
            (rk, ress) \<Rightarrow>
              (case next table_driver rk of
                 (rB, res) \<Rightarrow>
                   res = Inr True \<and>
                   fetch_log rB = [(SQL_FETCH_FIRST, 0), (SQL_FETCH_NEXT, 0)] \<and>
                   rowset_position rB = 0 \<and> position table_driver rB = Inr (Suc (nat B)))) \<and>
         (case skip table_driver B r1 of
            (rs, res) \<Rightarrow>
              res = Inr True \<and>
              fetch_log rs = [(SQL_FETCH_FIRST, 0), (SQL_FETCH_RELATIVE, B)] \<and>
              rowset_position rs = 0 \<and> position table_driver rs = Inr (Suc (nat B)))"
proof -
  note k = ResultImpl_ctor_table[OF c]
  note a = first_table[OF c N f]
  have B1: "1 \<le> B" by (rule k(1))
  have rows1: "rows r1 = B"
    using a(3) small B1 by (simp add: rows_def to_long_small)
  have in_batch: "next_times table_driver j r1 = (r1\<lparr>rowset_position := int j\<rparr>, replicate j (Inr True))"
    if "j < nat B" for j
    using next_times_in_batch[of r1 j table_driver] rows1 a(4,5) that by simp
  have pos: "position table_driver (r1\<lparr>rowset_position := int j\<rparr>) = Inr (Suc j)" if "j < nat B" for j
    using that small a(2) by (simp add: position_def table_driver_sel success_def SQL_ROW_NUMBER_UNKNOWN_def to_ulong_small)
  have ind: "isNull (r1\<lparr>rowset_position := int k\<rparr>) (int j) =
               Inr (fst (cell_at (ts_table d ! k) j) = SQL_NULL_DATA)"
    if "k < nat B" "j < length (bound_columns r)" for k j
  proof -
    from that(1) N have kk: "k < length (ts_table d)" "int k < B" by linarith+
    from that rows1 a(9) kk first_batch_indicators[OF c N f that(2)] show ?thesis
      by (simp add: isNull_def bound_columns_size_def rows_def)
  qed
  have A: "\<forall>k<nat B. case next_times table_driver k r1 of
            (rk, ress) \<Rightarrow>
              ress = replicate k (Inr True) \<and> fetch_log rk = [(SQL_FETCH_FIRST, 0)] \<and>
              rowset_position rk = int k \<and> position table_driver rk = Inr (Suc k) \<and>
              (\<forall>j<length (bound_columns r).
                 isNull rk (int j) = Inr (fst (cell_at (ts_table d ! k) j) = SQL_NULL_DATA))"
    using in_batch pos a(6) ind by simp
  \<comment> \<open>the call that leaves the first batch\<close>
  let ?rl = "r1\<lparr>rowset_position := int (nat B - 1)\<rparr>"
  let ?r0 = "r1\<lparr>rowset_position := 0\<rparr>"
  have ok0: "bound_ok ?r0" using a(7) by (simp add: bound_ok_def)
  obtain rB res where nx: "fetch table_driver 0 SQL_FETCH_NEXT ?r0 = (rB, res)" by fastforce
  have scn: "scroll SQL_FETCH_NEXT 0 (ts_rowset_size (stmt ?r0)) (int (length (ts_table (stmt ?r0))))
              (ts_cursor (stmt ?r0)) = RowsetStart (1 + B)"
    using a(2) N B1 by (simp add: place_def)
  from fetch_table[OF ok0 nx] have nB: "res = Inr True" "stmt rB = (stmt ?r0)\<lparr>ts_cursor := RowsetStart (1 + B)\<rparr>"
    unfolding scn by simp_all
  from fetch_frame[OF ok0 nx] a(6) have fB: "rowset_position rB = 0"
    "fetch_log rB = [(SQL_FETCH_FIRST, 0), (SQL_FETCH_NEXT, 0)]"
    by simp_all
  have pB: "position table_driver rB = Inr (Suc (nat B))"
    using nB(2) fB(1) small B1
    by (simp add: position_def table_driver_sel success_def SQL_ROW_NUMBER_UNKNOWN_def to_ulong_small nat_add_distrib)
  have nxt: "next table_driver ?rl = (rB, res)"
    using nx rows1 a(4) B1 by (simp add: next_def rows_def)
  have Bm: "nat B - 1 < nat B" using B1 by simp
  have Bc: "case next_times table_driver (nat B - 1) r1 of
            (rk, ress) \<Rightarrow>
              (case next table_driver rk of
                 (rB, res) \<Rightarrow>
                   res = Inr True \<and>
                   fetch_log rB = [(SQL_FETCH_FIRST, 0), (SQL_FETCH_NEXT, 0)] \<and>
                   rowset_position rB = 0 \<and> position table_driver rB = Inr (Suc (nat B)))"
    using in_batch[OF Bm] nxt nB(1) fB pB by simp
  \<comment> \<open>\<open>skip(B)\<close> at offset 0\<close>
  obtain rs res' where sk: "fetch table_driver B SQL_FETCH_RELATIVE ?r0 = (rs, res')" by fastforce
  have scs: "scroll SQL_FETCH_RELATIVE B (ts_rowset_size (stmt ?r0)) (int (length (ts_table (stmt ?r0))))
              (ts_cursor (stmt ?r0)) = RowsetStart (1 + B)"
    using a(2) N B1 by (simp add: place_def)
  from fetch_table[OF ok0 sk] have sB: "res' = Inr True" "stmt rs = (stmt ?r0)\<lparr>ts_cursor := RowsetStart (1 + B)\<rparr>"
    unfolding scs by simp_all
  from fetch_frame[OF ok0 sk] a(6) have fs: "rowset_position rs = 0"
    "fetch_log rs = [(SQL_FETCH_FIRST, 0), (SQL_FETCH_RELATIVE, B)]"
    by simp_all
  have ps: "position table_driver rs = Inr (Suc (nat B))"
    using sB(2) fs(1) small B1
    by (simp add: position_def table_driver_sel success_def SQL_ROW_NUMBER_UNKNOWN_def to_ulong_small nat_add_distrib)
  have skp: "skip table_driver B r1 = (rs, res')"
    using sk a(4,5) by (simp add: skip_def Let_def)
  have C: "case skip table_driver B r1 of
            (rs, res) \<Rightarrow>
              res = Inr True \<and>
              fetch_log rs = [(SQL_FETCH_FIRST, 0), (SQL_FETCH_RELATIVE, B)] \<and>
              rowset_position rs = 0 \<and> position table_driver rs = Inr (Suc (nat B))"
    using skp sB(1) fs ps by simp
  from a(1) A Bc C show ?thesis by blast
qed

lemma describe_columns_table_ok:
  "\<forall>i\<in>set is. i < length (ts_columns d) \<Longrightarrow>
   snd (describe_columns table_driver d is cols names) = Inr ()"
  by (induction "is" arbitrary: cols names) (auto simp: table_driver_sel success_def Let_def)

lemma bind_columns_table_ok:
  "\<forall>i\<in>set is. i < length (ts_columns d) \<Longrightarrow> 0 \<le> n \<Longrightarrow>
   snd (bind_columns table_driver d n uninit is cols) = Inr ()"
  by (induction "is" arbitrary: cols) (auto simp: table_driver_sel success_def Let_def)

lemma auto_bind_table_ok:
  assumes "bound_ok r" "0 \<le> rowset_size r"
  shows "snd (auto_bind table_driver uninit r) = Inr ()"
proof -
  let ?n = "length (ts_columns (stmt r))"
  obtain x res where dc0: "describe_columns table_driver (stmt r) [0..<?n]
      (replicate ?n new_bound_column) Map.empty = (x, res)"
    by fastforce
  obtain cols names where x: "x = (cols, names)" by fastforce
  have "snd (describe_columns table_driver (stmt r) [0..<?n] (replicate ?n new_bound_column) Map.empty) = Inr ()"
    by (rule describe_columns_table_ok) simp
  with dc0 x have dc: "describe_columns table_driver (stmt r) [0..<?n]
      (replicate ?n new_bound_column) Map.empty = ((cols, names), Inr ())"
    by simp
  obtain cols1 res1 where bc0: "bind_columns table_driver (stmt r) (rowset_size r) uninit [0..<?n] cols = (cols1, res1)"
    by fastforce
  have "snd (bind_columns table_driver (stmt r) (rowset_size r) uninit [0..<?n] cols) = Inr ()"
    using assms(2) by (intro bind_columns_table_ok) simp_all
  with bc0 have bc: "bind_columns table_driver (stmt r) (rowset_size r) uninit [0..<?n] cols = (cols1, Inr ())"
    by simp
  show ?thesis
    using assms(1) by (simp add: auto_bind_def table_driver_sel success_def Let_def dc bc)
qed

lemma ResultImpl_ctor_table_ok:
  assumes "1 \<le> B"
  shows "snd (ResultImpl_ctor table_driver uninit d B) = Inr ()"
  using assms
  by (simp add: ResultImpl_ctor_def table_driver_sel success_def Let_def auto_bind_table_ok bound_ok_def)

lemma people_ctor: "1 \<le> B \<Longrightarrow> ResultImpl_ctor table_driver garbage people_stmt B = (people_result B, Inr ())"
  using ResultImpl_ctor_table_ok[of B garbage people_stmt]
  by (simp add: people_result_def prod_eq_iff)



theorem batch_boundary_witness:
  "snd (first table_driver (people_result 2)) = Inr True \<and>
   (case next_times table_driver 1 (fst (first table_driver (people_result 2))) of
      (rk, ress) \<Rightarrow> ress = [Inr True] \<and> fetch_log rk = [(SQL_FETCH_FIRST, 0)] \<and>
        position table_driver rk = Inr 2) \<and>
   (case skip table_driver 2 (fst (first table_driver (people_result 2))) of
      (rs, res) \<Rightarrow> res = Inr True \<and> position table_driver rs = Inr 3)"
proof -
  have c: "ResultImpl_ctor table_driver garbage people_stmt 2 = (people_result 2, Inr ())"
    by (rule people_ctor) simp
  have N: "2 < int (length (ts_table people_stmt))" by (simp add: people_stmt_def)
  have s: "(2::int) < 2 ^ 63" by simp
  have f: "first table_driver (people_result 2) =
      (fst (first table_driver (people_result 2)), snd (first table_driver (people_result 2)))"
    by simp
  note b = batch_boundary[OF c N s f]
  note b1 = b[THEN conjunct1]
  have lt: "(1::nat) < nat 2" by simp
  note b2 = b[THEN conjunct2, THEN conjunct1, rule_format, OF lt]
  note b3 = b[THEN conjunct2, THEN conjunct2, THEN conjunct2]
  obtain rk ress where nk: "next_times table_driver 1 (fst (first table_driver (people_result 2))) = (rk, ress)"
    by fastforce
  obtain rs res where sk: "skip table_driver 2 (fst (first table_driver (people_result 2))) = (rs, res)"
    by fastforce
  from b2 have 4: "ress = [Inr True] \<and> fetch_log rk = [(SQL_FETCH_FIRST, 0)] \<and> position table_driver rk = Inr 2"
    unfolding nk by simp
  from b3 have 5: "res = Inr True \<and> position table_driver rs = Inr 3"
    unfolding sk by simp
  from b1 4 5 show ?thesis
    unfolding nk sk by simp
qed

lemma table_state_ctor:
  "1 \<le> B \<Longrightarrow>
   table_state d B (ts_cursor d) 0 0 False [] (fst (ResultImpl_ctor table_driver uninit d B))"
  using ResultImpl_ctor_table[of uninit d B "fst (ResultImpl_ctor table_driver uninit d B)" "()"]
    ResultImpl_ctor_table_ok[of B uninit d]
  by (simp add: table_state_def prod_eq_iff)

lemma table_state_offset:
  "table_state d B c cnt pos e l r \<Longrightarrow> table_state d B c cnt pos' e l (r\<lparr>rowset_position := pos'\<rparr>)"
  by (auto simp: table_state_def bound_ok_def)

lemma table_state_fetch:
  assumes "table_state d B c cnt pos e l r" "fetch table_driver n ori r = (r', res)"
    and "scroll ori n B (int (length (ts_table d))) c = c'"
  shows "table_state d B c' (fetched d B c') pos (e \<or> \<not> is_rowset c') (l @ [(ori, n)]) r' \<and>
         res = Inr (is_rowset c')"
proof -
  from assms(1) have ok: "bound_ok r" by (simp add: table_state_def)
  have sc: "scroll ori n (ts_rowset_size (stmt r)) (int (length (ts_table (stmt r)))) (ts_cursor (stmt r)) = c'"
    using assms(1,3) by (simp add: table_state_def)
  from fetch_table[OF ok assms(2)] fetch_frame[OF ok assms(2)] assms(1)
  show ?thesis
    unfolding sc by (auto simp: table_state_def fetched_def is_rowset_def split: cursor.splits)
qed

lemma table_state_first:
  assumes "table_state d B c cnt pos e l r" "first table_driver r = (r', res)"
    and "scroll SQL_FETCH_FIRST 0 B (int (length (ts_table d))) c = c'"
  shows "table_state d B c' (fetched d B c') 0 (e \<or> \<not> is_rowset c') (l @ [(SQL_FETCH_FIRST, 0)]) r' \<and>
         res = Inr (is_rowset c')"
  using table_state_fetch[OF table_state_offset[OF assms(1), of 0] _ assms(3), of r' res] assms(2)
  by (simp add: first_def)

lemma table_state_move:
  assumes "table_state d B c cnt pos e l r" "move table_driver n r = (r', res)"
    and "scroll SQL_FETCH_ABSOLUTE n B (int (length (ts_table d))) c = c'"
  shows "table_state d B c' (fetched d B c') 0 (e \<or> \<not> is_rowset c') (l @ [(SQL_FETCH_ABSOLUTE, n)]) r' \<and>
         res = Inr (is_rowset c')"
  using table_state_fetch[OF table_state_offset[OF assms(1), of 0] _ assms(3), of r' res] assms(2)
  by (simp add: move_def)

lemma table_state_next_refetch:
  assumes "table_state d B c cnt pos e l r" "next table_driver r = (r', res)"
    and "rows r = 0 \<or> \<not> pos + 1 < B"
    and "scroll SQL_FETCH_NEXT 0 B (int (length (ts_table d))) c = c'"
  shows "table_state d B c' (fetched d B c') 0 (e \<or> \<not> is_rowset c') (l @ [(SQL_FETCH_NEXT, 0)]) r' \<and>
         res = Inr (is_rowset c')"
proof -
  from assms(1,2,3) have "fetch table_driver 0 SQL_FETCH_NEXT (r\<lparr>rowset_position := 0\<rparr>) = (r', res)"
    by (auto simp: next_def table_state_def)
  from table_state_fetch[OF table_state_offset[OF assms(1), of 0] this assms(4)] show ?thesis .
qed

lemma table_state_next_in_memory:
  assumes "table_state d B c cnt pos e l r" "next table_driver r = (r', res)"
    and "rows r \<noteq> 0" "pos + 1 < B"
  shows "table_state d B c cnt (pos + 1) e l r' \<and> res = Inr (pos + 1 < rows r)"
  using assms by (auto simp: next_def table_state_def bound_ok_def)

lemma table_state_rows: "table_state d B c cnt pos e l r \<Longrightarrow> cnt < 2 ^ 63 \<Longrightarrow> rows r = int cnt"
  by (simp add: table_state_def rows_def to_long_small)

lemma table_state_atEnd:
  "table_state d B c cnt pos e l r \<Longrightarrow> cnt < 2 ^ 63 \<Longrightarrow>
   atEnd table_driver r =
     (e \<or> to_ulong (int (case c of RowsetStart s \<Rightarrow> nat s | _ \<Rightarrow> 0) - 1) > cnt)"
  by (auto simp: table_state_def atEnd_def rows_def to_long_small table_driver_sel success_def to_ulong_small
      split: cursor.splits)

lemma table_state_position:
  "table_state d B (RowsetStart s) cnt pos e l r \<Longrightarrow> 1 \<le> s \<Longrightarrow> 0 \<le> pos \<Longrightarrow> s + pos < 2 ^ 63 \<Longrightarrow>
   position table_driver r = Inr (nat (s + pos))"
  by (auto simp: table_state_def position_def table_driver_sel success_def SQL_ROW_NUMBER_UNKNOWN_def to_ulong_small)


lemma people_fetched:
  "fetched people_stmt B (RowsetStart s) = min (nat B) (3 - nat (s - 1))"
  "fetched people_stmt B AfterEnd = 0" "fetched people_stmt B BeforeStart = 0"
  "int (length (ts_table people_stmt)) = 3" "ts_cursor people_stmt = BeforeStart"
  by (simp_all add: fetched_def people_stmt_def)

text \<open>
  C3, the code at three failing inputs, all on the three-row example. (1) Rowset size 2:
  after \<^verbatim>\<open>first()\<close> and two calls of \<^verbatim>\<open>next()\<close>, each returning true, the cursor is on the
  last row (\<^verbatim>\<open>position()\<close> is 3) and \<^verbatim>\<open>atEnd()\<close> is already true. (2) Rowset size 5:
  after \<^verbatim>\<open>first()\<close> and three calls of \<^verbatim>\<open>next()\<close>, the third returning false (one call
  past the last row), \<^verbatim>\<open>atEnd()\<close> is false. (3) Rowset size 2: \<^verbatim>\<open>move(7)\<close> finds no row and
  sets the end flag; the following \<^verbatim>\<open>first()\<close> returns true and stands on row 1, and
  \<^verbatim>\<open>atEnd()\<close> is still true, since nothing ever clears \<^verbatim>\<open>at_end_\<close>.
\<close>

theorem atEnd_failing_runs:
  "(case first table_driver (people_result 2) of
      (r1, a) \<Rightarrow> case next table_driver r1 of
      (r2, b) \<Rightarrow> case next table_driver r2 of
      (r3, c) \<Rightarrow>
        a = Inr True \<and> b = Inr True \<and> c = Inr True \<and> position table_driver r3 = Inr 3 \<and>
        atEnd table_driver r3) \<and>
   (case first table_driver (people_result 5) of
      (r1, a) \<Rightarrow> case next table_driver r1 of
      (r2, b) \<Rightarrow> case next table_driver r2 of
      (r3, c) \<Rightarrow> case next table_driver r3 of
      (r4, d) \<Rightarrow>
        a = Inr True \<and> b = Inr True \<and> c = Inr True \<and> d = Inr False \<and>
        \<not> atEnd table_driver r4) \<and>
   (case move table_driver 7 (people_result 2) of
      (r1, a) \<Rightarrow> case first table_driver r1 of
      (r2, b) \<Rightarrow>
        a = Inr False \<and> b = Inr True \<and> position table_driver r2 = Inr 1 \<and>
        atEnd table_driver r2)"
proof -
  have A: "case first table_driver (people_result 2) of
      (r1, a) \<Rightarrow> case next table_driver r1 of
      (r2, b) \<Rightarrow> case next table_driver r2 of
      (r3, c) \<Rightarrow>
        a = Inr True \<and> b = Inr True \<and> c = Inr True \<and> position table_driver r3 = Inr 3 \<and>
        atEnd table_driver r3"
  proof -
    have s0: "table_state people_stmt 2 BeforeStart 0 0 False [] (people_result 2)"
      using table_state_ctor[of 2 people_stmt garbage] by (simp add: people_result_def people_fetched)
    obtain r1 a where f1: "first table_driver (people_result 2) = (r1, a)" by fastforce
    from table_state_first[OF s0 f1, of "RowsetStart 1"]
    have s1: "table_state people_stmt 2 (RowsetStart 1) 2 0 False [(SQL_FETCH_FIRST, 0)] r1" and a: "a = Inr True"
      by (simp_all add: people_fetched place_def is_rowset_def)
    obtain r2 b where f2: "next table_driver r1 = (r2, b)" by fastforce
    from table_state_next_in_memory[OF s1 f2] table_state_rows[OF s1]
    have s2: "table_state people_stmt 2 (RowsetStart 1) 2 1 False [(SQL_FETCH_FIRST, 0)] r2" and b: "b = Inr True"
      by simp_all
    obtain r3 c where f3: "next table_driver r2 = (r3, c)" by fastforce
    from table_state_next_refetch[OF s2 f3, of "RowsetStart 3"]
    have s3: "table_state people_stmt 2 (RowsetStart 3) 1 0 False [(SQL_FETCH_FIRST, 0), (SQL_FETCH_NEXT, 0)] r3"
      and c: "c = Inr True"
      by (simp_all add: people_fetched place_def is_rowset_def)
    from table_state_position[OF s3] have p: "position table_driver r3 = Inr 3" by simp
    from table_state_atEnd[OF s3] have e: "atEnd table_driver r3" by (simp add: to_ulong_def)
    from a b c p e show ?thesis by (simp add: f1 f2 f3)
  qed
  have B: "case first table_driver (people_result 5) of
      (r1, a) \<Rightarrow> case next table_driver r1 of
      (r2, b) \<Rightarrow> case next table_driver r2 of
      (r3, c) \<Rightarrow> case next table_driver r3 of
      (r4, d) \<Rightarrow>
        a = Inr True \<and> b = Inr True \<and> c = Inr True \<and> d = Inr False \<and>
        \<not> atEnd table_driver r4"
  proof -
    have s0: "table_state people_stmt 5 BeforeStart 0 0 False [] (people_result 5)"
      using table_state_ctor[of 5 people_stmt garbage] by (simp add: people_result_def people_fetched)
    obtain r1 a where f1: "first table_driver (people_result 5) = (r1, a)" by fastforce
    from table_state_first[OF s0 f1, of "RowsetStart 1"]
    have s1: "table_state people_stmt 5 (RowsetStart 1) 3 0 False [(SQL_FETCH_FIRST, 0)] r1" and a: "a = Inr True"
      by (simp_all add: people_fetched place_def is_rowset_def)
    obtain r2 b where f2: "next table_driver r1 = (r2, b)" by fastforce
    from table_state_next_in_memory[OF s1 f2] table_state_rows[OF s1]
    have s2: "table_state people_stmt 5 (RowsetStart 1) 3 1 False [(SQL_FETCH_FIRST, 0)] r2" and b: "b = Inr True"
      by simp_all
    obtain r3 c where f3: "next table_driver r2 = (r3, c)" by fastforce
    from table_state_next_in_memory[OF s2 f3] table_state_rows[OF s2]
    have s3: "table_state people_stmt 5 (RowsetStart 1) 3 2 False [(SQL_FETCH_FIRST, 0)] r3" and c: "c = Inr True"
      by simp_all
    obtain r4 d where f4: "next table_driver r3 = (r4, d)" by fastforce
    from table_state_next_in_memory[OF s3 f4] table_state_rows[OF s3]
    have s4: "table_state people_stmt 5 (RowsetStart 1) 3 3 False [(SQL_FETCH_FIRST, 0)] r4" and d: "d = Inr False"
      by simp_all
    from table_state_atEnd[OF s4] have e: "\<not> atEnd table_driver r4" by (simp add: to_ulong_def)
    from a b c d e show ?thesis by (simp add: f1 f2 f3 f4)
  qed
  have C: "case move table_driver 7 (people_result 2) of
      (r1, a) \<Rightarrow> case first table_driver r1 of
      (r2, b) \<Rightarrow>
        a = Inr False \<and> b = Inr True \<and> position table_driver r2 = Inr 1 \<and>
        atEnd table_driver r2"
  proof -
    have s0: "table_state people_stmt 2 BeforeStart 0 0 False [] (people_result 2)"
      using table_state_ctor[of 2 people_stmt garbage] by (simp add: people_result_def people_fetched)
    obtain r1 a where f1: "move table_driver 7 (people_result 2) = (r1, a)" by fastforce
    from table_state_move[OF s0 f1, of AfterEnd]
    have s1: "table_state people_stmt 2 AfterEnd 0 0 True [(SQL_FETCH_ABSOLUTE, 7)] r1" and a: "a = Inr False"
      by (simp_all add: people_fetched place_def absolute_def is_rowset_def)
    obtain r2 b where f2: "first table_driver r1 = (r2, b)" by fastforce
    from table_state_first[OF s1 f2, of "RowsetStart 1"]
    have s2: "table_state people_stmt 2 (RowsetStart 1) 2 0 True [(SQL_FETCH_ABSOLUTE, 7), (SQL_FETCH_FIRST, 0)] r2"
      and b: "b = Inr True"
      by (simp_all add: people_fetched place_def is_rowset_def)
    from table_state_position[OF s2] have p: "position table_driver r2 = Inr 1" by simp
    from table_state_atEnd[OF s2] have e: "atEnd table_driver r2" by simp
    from a b p e show ?thesis by (simp add: f1 f2)
  qed
  from A B C show ?thesis by blast
qed

section \<open>Evaluation on the examples, indicator arrays and names\<close>

lemma replicate_numeral_unfold: "replicate (numeral k) x = x # replicate (pred_numeral k) x"
  by (simp add: numeral_eq_Suc)

text \<open>Unfolding sets for evaluating the operations on concrete states.\<close>

lemmas ctor_eval =
  ResultImpl_ctor_def auto_bind_def bound_ok_def indicators_ok_def Let_def success_def
  table_driver_sel alloc_def new_bound_column_def describe_column_def c_str_def bind_text_def
  allocate_buffers_def upt_conv_Cons replicate_numeral_unfold

lemmas run_eval =
  first_def next_def skip_def prior_def move_def last_row_def fetch_def native_fetch_def before_move_def
  before_move_column_def release_bound_resources_def table_fetch_def place_def absolute_def
  column_image_def cell_at_def overlay_def rows_def to_long_def to_ulong_def atEnd_def position_def
  SQL_ROW_NUMBER_UNKNOWN_def SQL_NULL_DATA_def

lemmas get_eval =
  get_def getRef_def get_fallback_def getRef_fallback_def isNull_def get_ref_impl_def deref_def
  bound_columns_size_def

text \<open>
  C6, the code at a failing input. With rowset size 1, \<^verbatim>\<open>auto_bind\<close> gives each of the three
  columns of the example an indicator array of exactly one entry
  (\<^verbatim>\<open>new NullType[rowset_size_]\<close>), not of at least 8. The sibling allocation for bound
  parameters in \<^verbatim>\<open>prepare_bind\<close> does allocate 8 entries for one element.
\<close>

theorem indicator_array_of_one:
  "map (\<lambda>c. map_option length (cbdata c)) (bound_columns (people_result 1)) = [Some 1, Some 1, Some 1] \<and>
   prepare_bind_indicator_size 1 = 8"
  by (simp add: people_result_def people_stmt_def garbage_def ctor_eval prepare_bind_indicator_size_def)

text \<open>
  C7 (amended). After a successful \<^verbatim>\<open>auto_bind\<close>, a name carried by one or more columns
  resolves to the last of them in ordinal order: \<^verbatim>\<open>column(name)\<close> is the greatest ordinal
  whose column has that name (each \<^verbatim>\<open>bound_columns_by_name_[name] = &col\<close> overwrites the
  entry of an earlier column). Duplicate names are no error; the earlier columns are
  reachable by ordinal only.
\<close>

theorem name_lookup_last_wins:
  assumes "auto_bind drv uninit r = (r', Inr u)"
    and "i < length (bound_columns r')" "name (bound_columns r' ! i) = s"
    and "\<forall>j. i < j \<and> j < length (bound_columns r') \<longrightarrow> name (bound_columns r' ! j) \<noteq> s"
  shows "column r' s = Inr (int i)"
proof -
  from assms(1) obtain rc :: retcode and k :: int where
    cols: "\<forall>j<length (bound_columns r'). bound_columns r' ! j = bound_as drv (stmt r) (rowset_size r) uninit j"
    and names: "\<forall>s. bound_columns_by_name r' s =
        find (\<lambda>i. described_name drv (stmt r) i = s) (rev [0..<length (bound_columns r')])"
    by (rule auto_bind_success)
  have nm: "name (bound_as drv (stmt r) (rowset_size r) uninit j) = described_name drv (stmt r) j" for j
    by (simp add: bound_as_def described_def described_name_def name_allocate_buffers name_describe_column)
  have ord: "column_ord (bound_as drv (stmt r) (rowset_size r) uninit j) = int j" for j
    by (simp add: bound_as_def described_def column_ord_allocate_buffers column_ord_describe_column)
  have "find (\<lambda>i. described_name drv (stmt r) i = s) (rev [0..<length (bound_columns r')]) = Some i"
  proof (rule find_rev_upt_last)
    show "i < length (bound_columns r')" by (rule assms(2))
    show "described_name drv (stmt r) i = s" using assms(2,3) cols nm by simp
    show "\<forall>j. i < j \<and> j < length (bound_columns r') \<longrightarrow> described_name drv (stmt r) j \<noteq> s"
      using assms(4) cols nm by simp
  qed
  with names have "bound_columns_by_name r' s = Some i" by simp
  with assms(2) cols ord show ?thesis by (simp add: column_def)
qed


section \<open>The content of a database error\<close>

lemma overlay_same_length: "length new = length old \<Longrightarrow> overlay old new = new"
  by (simp add: overlay_def)

lemma to_short_1: "to_short 1 = 1"
  by (simp add: to_short_def)

lemma nul_to_space_not_nul: "CHR 0x00 \<notin> set (map nul_to_space xs)"
  by (auto simp: nul_to_space_def)

lemma c_str_not_nul: "CHR 0x00 \<notin> set (c_str xs)"
  by (auto simp: c_str_def dest: set_takeWhileD)

lemma recent_error_loop_first_record:
  assumes "dr_text rec \<noteq> []" "length (sqlState out) = 6"
  shows "recent_error_loop False (diag_records (rec # rest)) 1 [] out =
           Some (True, dr_text rec @ [CHR 0x00],
                 out\<lparr>sqlState := alloc 5 (CHR 0x00) (dr_state rec) @ [CHR 0x00],
                     nativeError := dr_native rec,
                     total_bytes := int (length (dr_text rec)),
                     sql_message := dr_text rec @ [CHR 0x00]\<rparr>)"
  using assms
  apply (subst recent_error_loop.simps)
  apply (simp add: diag_call_def diag_records_def to_short_1 Let_def success_def resize_def
      overlay_same_length length_alloc)
  done

text \<open>
  C9 (amended). In the build without \<^verbatim>\<open>_MSC_VER\<close>, when the driver holds at least one
  diagnostic record with a non-empty text (of a length a \<^verbatim>\<open>SQLSMALLINT\<close> buffer length
  can hold), the \<^verbatim>\<open>DatabaseError\<close> is built from the first
  record alone: it carries that record's SQLSTATE and native code, and its message is
  the context string, the state, \<open>": "\<close>, the text of the first record and one trailing
  space (the terminating NUL of the message buffer, replaced like every other NUL);
  the message holds no NUL. Further records are not read.
\<close>

theorem first_diagnostic_record_only:
  assumes "dr_text rec \<noteq> []" "length (dr_text rec) < 32767"
  shows "\<exists>e. DatabaseError_ctor False (diag_records (rec # rest)) indet info = Some e \<and>
           err_sqlState e = alloc 5 (CHR 0x00) (dr_state rec) \<and>
           err_nativeError e = dr_native rec \<and>
           err_message e =
             c_str info @ map nul_to_space (alloc 5 (CHR 0x00) (dr_state rec)) @ '': '' @
             map nul_to_space (dr_text rec) @ '' '' \<and>
           CHR 0x00 \<notin> set (err_message e)"
proof -
  let ?out = "indet\<lparr>sqlState := alloc 6 (CHR 0x00) (sqlState indet),
                    sql_message := replicate SQL_MAX_MESSAGE_LENGTH (CHR 0x00)\<rparr>"
  have l: "length (sqlState ?out) = 6" by (simp add: length_alloc)
  note loop = recent_error_loop_first_record[OF assms(1) l, of rest]
  have n: "CHR 0x00 \<notin> set (map nul_to_space (alloc 5 (CHR 0x00) (dr_state rec)))"
    "CHR 0x00 \<notin> set (map nul_to_space (dr_text rec))" "CHR 0x00 \<notin> set (c_str info)"
    by (rule nul_to_space_not_nul nul_to_space_not_nul c_str_not_nul)+
  show ?thesis
    using n by (simp add: DatabaseError_ctor_def recent_error_def loop length_alloc nul_to_space_def)
qed

section \<open>Counterexamples and witnesses on the examples\<close>

lemma people_first_eq:
  "people_first =
    \<lparr>stmt = people_stmt\<lparr>ts_rowset_size := 2, ts_cursor := RowsetStart 1\<rparr>, rowset_size = 2,
      row_count = 2,
      bound_columns =
        [\<lparr>name = ''id'', column_ord = 0, sqltype = SQL_BIGINT, sqlsize = 19, scale = 0,
          ctype = SQL_C_SBIGINT, clen = 8, blob = False, cbdata = Some [8, 8],
          pdata = Some (CHR 0x01 # replicate 7 (CHR 0x00) @ CHR 0x02 # replicate 7 (CHR 0x00))\<rparr>,
         \<lparr>name = ''name'', column_ord = 1, sqltype = SQL_VARCHAR, sqlsize = 3, scale = 0,
          ctype = SQL_C_CHAR, clen = 4, blob = False, cbdata = Some [3, 2],
          pdata = Some (''Ann'' @ [CHR 0x00] @ ''Bo'' @ [CHR 0x00, CHR 0x00])\<rparr>,
         \<lparr>name = ''bio'', column_ord = 2, sqltype = SQL_VARCHAR, sqlsize = 0, scale = 0,
          ctype = SQL_C_CHAR, clen = 0, blob = True, cbdata = Some [2, - 1], pdata = None\<rparr>],
      rowset_position = 0,
      bound_columns_by_name = bound_columns_by_name (people_result 2),
      at_end = False, fetch_log = [(SQL_FETCH_FIRST, 0)]\<rparr>"
  by (simp add: people_first_def people_result_def people_stmt_def garbage_def ctor_eval run_eval)

lemma people_second_eq: "people_second = people_first\<lparr>rowset_position := 1\<rparr>"
  by (simp add: people_second_def next_def rows_def to_long_def people_first_eq)

theorem null_cell_access_witness:
  "rowset_position people_second < rows people_second \<and>
   cbdata (bound_columns people_second ! nat 2) = Some [2, - 1] \<and>
   get get_ref_impl people_second 2 = Inl NullAccessError \<and>
   get_fallback get_ref_impl people_second 2 (c_char, ''n/a'') = Inr (c_char, ''n/a'')"
  using null_cell_access[of 2 people_second "[2, - 1]" get_ref_impl "(c_char, ''n/a'')" get_ref_impl pdata]
  by (simp add: people_second_eq people_first_eq bound_columns_size_def rows_def to_long_def
      SQL_NULL_DATA_def)

theorem access_without_current_row_witness:
  "rows (people_result 2) \<le> rowset_position (people_result 2) \<and>
   isNull (people_result 2) 0 = Inl IndexRangeError \<and>
   get get_ref_impl (people_result 2) 0 = Inl IndexRangeError \<and>
   get_fallback get_ref_impl (people_result 2) 0 (c_char, ''n/a'') = Inl IndexRangeError"
proof -
  have c: "ResultImpl_ctor table_driver garbage people_stmt 2 = (people_result 2, Inr ())"
    by (rule people_ctor) simp
  from ResultImpl_ctor_unpositioned[OF c]
  have h: "rows (people_result 2) \<le> rowset_position (people_result 2)"
    by (simp add: rows_def to_long_def)
  from access_without_current_row[of 0 "people_result 2" table_driver garbage people_stmt 2 "Inr ()"
      get_ref_impl "(c_char, ''n/a'')"] c h
  show ?thesis by simp
qed

theorem numeric_get_of_text_column_counterexample:
  "ctype (bound_columns people_first ! 1) = SQL_C_CHAR \<and>
   get get_ref_impl people_first 1 = Inr (c_char, ''A'') \<and>
   get get_ref_impl people_first 1 \<noteq> Inl TypeIncompatipleError"
  by (simp add: people_first_eq get_eval rows_def to_long_def SQL_NULL_DATA_def)

theorem numeric_get_of_text_column_witness:
  "rowset_position people_first < rows people_first \<and>
   cbdata (bound_columns people_first ! nat 1) = Some [3, 2] \<and>
   get get_ref_impl people_first 1 = Inr (c_char, ''A'')"
  using numeric_get_of_text_column[of 1 people_first "[3, 2]"]
  by (simp add: people_first_eq bound_columns_size_def rows_def to_long_def SQL_NULL_DATA_def)

theorem fetch_clears_data_counterexample:
  "bound_ok people_first \<and>
   cbdata (bound_columns (before_move people_first) ! 1) = Some [0, 0] \<and>
   pdata (bound_columns (before_move people_first) ! 1) =
     Some (''Ann'' @ [CHR 0x00] @ ''Bo'' @ [CHR 0x00, CHR 0x00]) \<and>
   pdata (bound_columns (before_move people_first) ! 1) \<noteq> Some (replicate 8 (CHR 0x00))"
  by (simp add: people_first_eq before_move_def before_move_column_def bound_ok_def indicators_ok_def
      Let_def replicate_numeral_unfold)

theorem fetch_clears_indicators_witness:
  "bound_ok people_first \<and>
   fetch table_driver 0 SQL_FETCH_NEXT people_first =
     native_fetch table_driver 0 SQL_FETCH_NEXT (before_move people_first) \<and>
   rowset_size (before_move people_first) = 2"
proof -
  have ok: "bound_ok people_first"
    by (simp add: people_first_eq bound_ok_def indicators_ok_def)
  from fetch_clears_indicators[OF ok, of table_driver 0 SQL_FETCH_NEXT] ok show ?thesis
    by (simp add: people_first_eq)
qed

lemma people_mid_batch_state:
  "table_state people_stmt 5 (RowsetStart 1) 3 2 False [(SQL_FETCH_FIRST, 0)] people_mid_batch"
proof -
  have s0: "table_state people_stmt 5 BeforeStart 0 0 False [] (people_result 5)"
    using table_state_ctor[of 5 people_stmt garbage] by (simp add: people_result_def people_fetched)
  obtain r1 a where f1: "first table_driver (people_result 5) = (r1, a)" by fastforce
  from table_state_first[OF s0 f1, of "RowsetStart 1"]
  have s1: "table_state people_stmt 5 (RowsetStart 1) 3 0 False [(SQL_FETCH_FIRST, 0)] r1"
    by (simp_all add: people_fetched place_def is_rowset_def)
  obtain r2 b where f2: "next table_driver r1 = (r2, b)" by fastforce
  from table_state_next_in_memory[OF s1 f2] table_state_rows[OF s1]
  have s2: "table_state people_stmt 5 (RowsetStart 1) 3 1 False [(SQL_FETCH_FIRST, 0)] r2"
    by simp_all
  obtain r3 c where f3: "next table_driver r2 = (r3, c)" by fastforce
  from table_state_next_in_memory[OF s2 f3] table_state_rows[OF s2]
  have s3: "table_state people_stmt 5 (RowsetStart 1) 3 2 False [(SQL_FETCH_FIRST, 0)] r3"
    by simp_all
  then show ?thesis by (simp add: people_mid_batch_def f1 f2 f3)
qed

theorem prior_in_memory_counterexample:
  "snd (prior table_driver people_mid_batch) = Inr True \<and>
   rowset_position (fst (prior table_driver people_mid_batch)) = 1 \<and>
   fetch_log (fst (prior table_driver people_mid_batch)) = fetch_log people_mid_batch \<and>
   fetch_log people_mid_batch = [(SQL_FETCH_FIRST, 0)]"
  using people_mid_batch_state table_state_rows[OF people_mid_batch_state]
  by (simp add: prior_def table_state_def)

theorem navigation_fetches_witness:
  "bound_ok people_mid_batch \<and>
   rowset_position (fst (first table_driver people_mid_batch)) = 0 \<and>
   fetch_log (fst (first table_driver people_mid_batch)) = [(SQL_FETCH_FIRST, 0), (SQL_FETCH_FIRST, 0)] \<and>
   prior table_driver people_mid_batch = (people_mid_batch\<lparr>rowset_position := 1\<rparr>, Inr True)"
proof -
  from people_mid_batch_state have ok: "bound_ok people_mid_batch"
    and f: "fetch_log people_mid_batch = [(SQL_FETCH_FIRST, 0)]" "rowset_position people_mid_batch = 2"
    by (simp_all add: table_state_def)
  have r: "rows people_mid_batch = 3"
    using table_state_rows[OF people_mid_batch_state] by simp
  from navigation_fetches[OF ok, of table_driver 0] ok f r show ?thesis
    by (simp add: Let_def)
qed

theorem first_wins_counterexample:
  "snd (auto_bind table_driver garbage twins_unbound) = Inr () \<and>
   map name (bound_columns (fst (auto_bind table_driver garbage twins_unbound))) = [''a'', ''a''] \<and>
   column (fst (auto_bind table_driver garbage twins_unbound)) ''a'' = Inr 1 \<and>
   column (fst (auto_bind table_driver garbage twins_unbound)) ''a'' \<noteq> Inr 0"
  by (simp add: twins_unbound_def twins_stmt_def garbage_def ctor_eval column_def)

theorem name_lookup_last_wins_witness:
  "map name (bound_columns (fst (auto_bind table_driver garbage twins_unbound))) = [''a'', ''a''] \<and>
   column (fst (auto_bind table_driver garbage twins_unbound)) ''a'' = Inr (int 1)"
proof -
  have a: "auto_bind table_driver garbage twins_unbound =
            (fst (auto_bind table_driver garbage twins_unbound), Inr ())"
    using auto_bind_table_ok[of twins_unbound garbage]
    by (simp add: prod_eq_iff twins_unbound_def bound_ok_def)
  have n: "map name (bound_columns (fst (auto_bind table_driver garbage twins_unbound))) = [''a'', ''a'']"
    by (simp add: twins_unbound_def twins_stmt_def garbage_def ctor_eval)
  then have l: "length (bound_columns (fst (auto_bind table_driver garbage twins_unbound))) = 2"
    by (metis length_map length_Cons list.size(3) numeral_2_eq_2)
  from n l have 1: "name (bound_columns (fst (auto_bind table_driver garbage twins_unbound)) ! 1) = ''a''"
    by (metis One_nat_def lessI nth_Cons_0 nth_Cons_Suc nth_map numeral_2_eq_2)
  have v: "\<forall>j. 1 < j \<and> j < length (bound_columns (fst (auto_bind table_driver garbage twins_unbound))) \<longrightarrow>
             name (bound_columns (fst (auto_bind table_driver garbage twins_unbound)) ! j) \<noteq> ''a''"
    unfolding l by arith
  have i: "1 < length (bound_columns (fst (auto_bind table_driver garbage twins_unbound)))"
    unfolding l by simp
  from name_lookup_last_wins[OF a i 1 v] n show ?thesis
    by simp
qed

theorem stacked_records_counterexample:
  "DatabaseError_ctor False (diag_records two_diag_records) stack_junk ''x.cpp:7: '' =
     Some \<lparr>err_message = ''x.cpp:7: 42S02: no table '', err_nativeError = 208,
           err_sqlState = ''42S02''\<rparr> \<and>
   ''x.cpp:7: 42S02: no table '' \<noteq> ''x.cpp:7: 42S02: no table not prepared''"
  by (simp add: DatabaseError_ctor_def recent_error_def two_diag_records_def stack_junk_def
      recent_error_loop_first_record length_alloc alloc_def c_str_def nul_to_space_def)

theorem first_diagnostic_record_only_witness:
  "dr_text (hd two_diag_records) \<noteq> [] \<and>
   (\<exists>e. DatabaseError_ctor False (diag_records two_diag_records) stack_junk ''x.cpp:7: '' = Some e \<and>
        err_nativeError e = 208 \<and> err_sqlState e = ''42S02'')"
proof -
  have t: "dr_text \<lparr>dr_state = ''42S02'', dr_native = 208, dr_text = ''no table''\<rparr> \<noteq> []" by simp
  have u: "length (dr_text \<lparr>dr_state = ''42S02'', dr_native = 208, dr_text = ''no table''\<rparr>) < 32767"
    by simp
  from first_diagnostic_record_only[OF t u,
      of "[\<lparr>dr_state = ''42000'', dr_native = 8180, dr_text = ''not prepared''\<rparr>]" stack_junk "''x.cpp:7: ''"]
  show ?thesis
    by (auto simp: two_diag_records_def alloc_def)
qed

theorem atEnd_failing_runs_witness:
  "snd (next table_driver (fst (next table_driver (fst (first table_driver (people_result 2)))))) = Inr True \<and>
   position table_driver
     (fst (next table_driver (fst (next table_driver (fst (first table_driver (people_result 2))))))) = Inr 3 \<and>
   atEnd table_driver
     (fst (next table_driver (fst (next table_driver (fst (first table_driver (people_result 2)))))))"
  using atEnd_failing_runs by (simp add: case_prod_beta)

end
